theory Spec2Isabelle
  imports Complex_Main "HOL-Library.Sublist" "HOL-Library.AList"
begin

section \<open>Documents as the presentation process sees them\<close>

text \<open>
  The host builds one \<open>DesignFile\<close> per document and pushes the list to the webview
  (\<open>CanvasMessageHandler.getDesignFiles\<close>). \<open>filePath\<close> holds the path of the
  file below the workspace root; the source hands it through \<open>asWebviewUri\<close>, which
  renames the scheme of the URI and keeps the path. \<open>content\<close> is the body of the file
  after \<open>inlineExternalCSS\<close>; that rewriting only depends on the body and on the
  stylesheets beside it, no operation below reads its result, and \<open>content\<close> holds
  the body as read. \<open>timestamp\<close> is \<open>stats.mtimeMs\<close>, a number of milliseconds
  that may carry a fraction.
\<close>

datatype DesignStatus = Draft | Review | Approved | Archived | Exported

datatype Viewport = Mobile | Tablet | Desktop

record DesignFile =
  name :: string
  filePath :: string
  content :: string
  viewport :: Viewport
  status :: DesignStatus
  timestamp :: rat
  parentDesign :: "string option"

section \<open>The view-state store (canvasStore.ts)\<close>

datatype ViewMode = Gallery | Compare | Studio

datatype StatusFilter = StatusAll | StatusDraft | StatusReview | StatusApproved | StatusArchived

datatype ViewportFilter = ViewportAll | ViewportMobile | ViewportTablet | ViewportDesktop

record Filters =
  filter_status :: StatusFilter
  filter_viewport :: ViewportFilter
  search :: string

text \<open>\<open>Partial<Filters>\<close> and \<open>Partial<DesignFile>\<close>: every field may be missing.\<close>

record FiltersPatch =
  patch_filter_status :: "StatusFilter option"
  patch_filter_viewport :: "ViewportFilter option"
  patch_search :: "string option"

record DesignFilePatch =
  patch_name :: "string option"
  patch_filePath :: "string option"
  patch_content :: "string option"
  patch_viewport :: "Viewport option"
  patch_status :: "DesignStatus option"
  patch_timestamp :: "rat option"
  patch_parentDesign :: "string option option"

text \<open>
  The requests the webview posts to the host (\<open>vscode.postMessage\<close>). The \<open>value\<close>
  of a \<open>design:action\<close> message is read for \<open>setStatus\<close> only, where the components
  send one of the statuses; it is carried by \<open>SetStatus\<close>.
\<close>

datatype DesignActionKind =
  SetStatus DesignStatus | CopyPrompt | CopyPath | OpenExternal | ArchiveAction | DeleteAction
  | OtherAction string

datatype WebviewRequest =
  CanvasReady
  | DesignSetPrimary "string option"
  | DesignAction string DesignActionKind
  | ChatSetContext string
  | OtherCommand string

text \<open>
  The store. \<open>designs_list\<close> is the source's \<open>designs\<close> and \<open>error_text\<close> its
  \<open>error\<close>. \<open>vscodeApi\<close> says whether \<open>acquireVsCodeApi\<close> is defined (it is inside a
  VS Code webview), and \<open>posted\<close> collects what \<open>postMessage\<close> has sent.
  \<open>vscode.setState\<close>, which \<open>setMode\<close> calls, only writes a copy of the store that
  nothing reads back, and is not modelled.
\<close>

record CanvasStore =
  mode :: ViewMode
  designs_list :: "DesignFile list"
  primaryDesignId :: "string option"
  compareSet :: "string list"
  studioDesignId :: "string option"
  filters :: Filters
  isLoading :: bool
  error_text :: "string option"
  vscodeApi :: bool
  posted :: "WebviewRequest list"

definition initial_store :: "bool \<Rightarrow> CanvasStore" where
  "initial_store api =
     \<lparr> mode = Gallery, designs_list = [], primaryDesignId = None, compareSet = [],
       studioDesignId = None,
       filters = \<lparr> filter_status = StatusAll, filter_viewport = ViewportAll, search = [] \<rparr>,
       isLoading = True, error_text = None, vscodeApi = api, posted = [] \<rparr>"

text \<open>
  JavaScript's \<open>a || b\<close> on \<open>string | null | undefined\<close>: the empty string is falsy
  like \<open>null\<close> and \<open>undefined\<close>.
\<close>

definition or_else :: "string option \<Rightarrow> string option \<Rightarrow> string option" where
  "or_else a b = (case a of None \<Rightarrow> b | Some x \<Rightarrow> if x = [] then b else Some x)"

definition setMode :: "ViewMode \<Rightarrow> string option \<Rightarrow> CanvasStore \<Rightarrow> CanvasStore" where
  "setMode m designId s =
     s\<lparr> mode := m,
        studioDesignId :=
          (if m = Studio then or_else designId (studioDesignId s) else studioDesignId s) \<rparr>"

definition setDesigns :: "DesignFile list \<Rightarrow> CanvasStore \<Rightarrow> CanvasStore" where
  "setDesigns ds s = s\<lparr> designs_list := ds, isLoading := False \<rparr>"

definition merge_design :: "DesignFile \<Rightarrow> DesignFilePatch \<Rightarrow> DesignFile" where
  "merge_design d u =
     \<lparr> name = (case patch_name u of None \<Rightarrow> name d | Some x \<Rightarrow> x),
       filePath = (case patch_filePath u of None \<Rightarrow> filePath d | Some x \<Rightarrow> x),
       content = (case patch_content u of None \<Rightarrow> content d | Some x \<Rightarrow> x),
       viewport = (case patch_viewport u of None \<Rightarrow> viewport d | Some x \<Rightarrow> x),
       status = (case patch_status u of None \<Rightarrow> status d | Some x \<Rightarrow> x),
       timestamp = (case patch_timestamp u of None \<Rightarrow> timestamp d | Some x \<Rightarrow> x),
       parentDesign = (case patch_parentDesign u of None \<Rightarrow> parentDesign d | Some x \<Rightarrow> x) \<rparr>"

definition updateDesign :: "string \<Rightarrow> DesignFilePatch \<Rightarrow> CanvasStore \<Rightarrow> CanvasStore" where
  "updateDesign designId updates s =
     s\<lparr> designs_list :=
          map (\<lambda>d. if name d = designId then merge_design d updates else d) (designs_list s) \<rparr>"

definition setPrimaryDesignId :: "string option \<Rightarrow> CanvasStore \<Rightarrow> CanvasStore" where
  "setPrimaryDesignId ident s =
     (let s1 = s\<lparr> primaryDesignId := ident \<rparr>
      in if vscodeApi s1 then s1\<lparr> posted := posted s1 @ [DesignSetPrimary ident] \<rparr> else s1)"

definition addToCompare :: "string \<Rightarrow> CanvasStore \<Rightarrow> CanvasStore" where
  "addToCompare ident s =
     (if ident \<in> set (compareSet s) then s
      else let newCompareSet = take 3 (compareSet s @ [ident])
           in s\<lparr> compareSet := newCompareSet,
                 mode := (if length newCompareSet > 0 then Compare else mode s) \<rparr>)"

definition removeFromCompare :: "string \<Rightarrow> CanvasStore \<Rightarrow> CanvasStore" where
  "removeFromCompare ident s =
     (let newCompareSet = filter (\<lambda>cid. cid \<noteq> ident) (compareSet s)
      in s\<lparr> compareSet := newCompareSet,
            mode := (if length newCompareSet = 0 then Gallery else mode s) \<rparr>)"

definition clearCompare :: "CanvasStore \<Rightarrow> CanvasStore" where
  "clearCompare s = s\<lparr> compareSet := [], mode := Gallery \<rparr>"

definition setStudioDesignId :: "string option \<Rightarrow> CanvasStore \<Rightarrow> CanvasStore" where
  "setStudioDesignId ident s = s\<lparr> studioDesignId := ident \<rparr>"

definition setFilters :: "FiltersPatch \<Rightarrow> CanvasStore \<Rightarrow> CanvasStore" where
  "setFilters p s =
     s\<lparr> filters :=
          \<lparr> filter_status =
              (case patch_filter_status p of None \<Rightarrow> filter_status (filters s) | Some x \<Rightarrow> x),
            filter_viewport =
              (case patch_filter_viewport p of None \<Rightarrow> filter_viewport (filters s) | Some x \<Rightarrow> x),
            search = (case patch_search p of None \<Rightarrow> search (filters s) | Some x \<Rightarrow> x) \<rparr> \<rparr>"

definition setIsLoading :: "bool \<Rightarrow> CanvasStore \<Rightarrow> CanvasStore" where
  "setIsLoading loading s = s\<lparr> isLoading := loading \<rparr>"

definition setError :: "string option \<Rightarrow> CanvasStore \<Rightarrow> CanvasStore" where
  "setError e s = s\<lparr> error_text := e, isLoading := False \<rparr>"

text \<open>
  Every action of the store as a value, so that a sequence of calls is a list.
\<close>

datatype StoreAction =
  SetMode ViewMode "string option"
  | SetDesigns "DesignFile list"
  | UpdateDesign string DesignFilePatch
  | SetPrimaryDesignId "string option"
  | AddToCompare string
  | RemoveFromCompare string
  | ClearCompare
  | SetStudioDesignId "string option"
  | SetFilters FiltersPatch
  | SetIsLoading bool
  | SetError "string option"

fun apply_action :: "StoreAction \<Rightarrow> CanvasStore \<Rightarrow> CanvasStore" where
  "apply_action (SetMode m designId) s = setMode m designId s"
| "apply_action (SetDesigns ds) s = setDesigns ds s"
| "apply_action (UpdateDesign designId u) s = updateDesign designId u s"
| "apply_action (SetPrimaryDesignId ident) s = setPrimaryDesignId ident s"
| "apply_action (AddToCompare ident) s = addToCompare ident s"
| "apply_action (RemoveFromCompare ident) s = removeFromCompare ident s"
| "apply_action ClearCompare s = clearCompare s"
| "apply_action (SetStudioDesignId ident) s = setStudioDesignId ident s"
| "apply_action (SetFilters p) s = setFilters p s"
| "apply_action (SetIsLoading b) s = setIsLoading b s"
| "apply_action (SetError e) s = setError e s"

fun run_actions :: "StoreAction list \<Rightarrow> CanvasStore \<Rightarrow> CanvasStore" where
  "run_actions [] s = s"
| "run_actions (a # as) s = run_actions as (apply_action a s)"



subsection \<open>StudioView\<close>

text \<open>
  What StudioView renders: the "No design selected" page with its back button, or the
  frame of the active design with its parent (\<open>useParentDesign\<close>) and its variations
  (\<open>useDesignVariations\<close>).
\<close>

datatype StudioRendering =
  StudioEmpty
  | StudioShown DesignFile "DesignFile option" "DesignFile list"

definition activeDesignId :: "CanvasStore \<Rightarrow> string option" where
  "activeDesignId s = or_else (studioDesignId s) (primaryDesignId s)"

definition useDesignVariations :: "CanvasStore \<Rightarrow> string \<Rightarrow> DesignFile list" where
  "useDesignVariations s designId =
     filter (\<lambda>d. parentDesign d = Some designId) (designs_list s)"

definition useParentDesign :: "CanvasStore \<Rightarrow> string \<Rightarrow> DesignFile option" where
  "useParentDesign s designId =
     (case find (\<lambda>d. name d = designId) (designs_list s) of
        None \<Rightarrow> None
      | Some design \<Rightarrow>
          (case parentDesign design of
             None \<Rightarrow> None
           | Some p \<Rightarrow> if p = [] then None else find (\<lambda>d. name d = p) (designs_list s)))"

definition StudioView :: "CanvasStore \<Rightarrow> StudioRendering" where
  "StudioView s =
     (case find (\<lambda>d. Some (name d) = activeDesignId s) (designs_list s) of
        None \<Rightarrow> StudioEmpty
      | Some activeDesign \<Rightarrow>
          (let ident = (case activeDesignId s of None \<Rightarrow> [] | Some x \<Rightarrow> x)
           in StudioShown activeDesign (useParentDesign s ident) (useDesignVariations s ident)))"

text \<open>The back button of StudioView: \<open>onClick={() => setMode('gallery')}\<close>.\<close>

definition studio_back :: "CanvasStore \<Rightarrow> CanvasStore" where
  "studio_back s = setMode Gallery None s"

section \<open>Metadata records (types/designMetadata.ts)\<close>

text \<open>
  A JavaScript \<open>Date\<close> is a number of milliseconds since the epoch, or the invalid
  date (\<open>NaN\<close>). \<open>a < b\<close> on two dates compares the numbers and is false as soon as one
  of them is invalid.
\<close>

datatype Date = Date int | InvalidDate

fun date_less :: "Date \<Rightarrow> Date \<Rightarrow> bool" where
  "date_less (Date a) (Date b) = (a < b)"
| "date_less _ _ = False"

text \<open>
  \<open>md_status\<close>, \<open>md_parentDesign\<close>, \<open>md_notes\<close> and \<open>md_version\<close> are the fields
  \<open>status\<close>, \<open>parentDesign\<close>, \<open>notes\<close> and \<open>version\<close> of the source's
  \<open>DesignMetadata\<close>.
\<close>

record DesignMetadata =
  fileName :: string
  md_status :: DesignStatus
  createdAt :: Date
  updatedAt :: Date
  md_parentDesign :: "string option"
  tags :: "string list option"
  md_notes :: "string option"
  exportedTo :: "string option"
  md_version :: "rat option"

text \<open>
  \<open>designs\<close> is a JavaScript object used as a table: every key occurs once, and
  \<open>Object.entries\<close> lists the keys in the order in which they were added (file names
  are never array indices). The association list keeps that order; \<open>AList.update\<close>
  writes a key where it stands or adds it at the end, as the assignment
  \<open>store.designs[fileName] = ...\<close> does.
\<close>

record DesignMetadataStore =
  designs :: "(string \<times> DesignMetadata) list"
  lastUpdated :: Date
  version :: string

text \<open>
  What surrounds an operation of the host: the clock (\<open>new Date()\<close>, read as one value
  for the time of an operation), the file system calls that fail although their file is
  there, and the answer to the modal "Delete?" dialog. \<open>cutoff_date env daysOld\<close> is the
  date that \<open>archiveOldDesigns\<close> computes from the clock by
  \<open>cutoffDate.setDate(cutoffDate.getDate() - daysOld)\<close>, which counts calendar days in
  the local time zone.
\<close>

record Env =
  now :: int
  cutoff_date :: "int \<Rightarrow> Date"
  copy_fails :: "string \<Rightarrow> bool"
  delete_fails :: "string \<Rightarrow> bool"
  mkdir_fails :: bool
  write_fails :: bool
  listing_fails :: bool
  user_confirms :: bool

definition createDefaultMetadata :: "Env \<Rightarrow> string \<Rightarrow> DesignMetadata" where
  "createDefaultMetadata env file =
     \<lparr> fileName = file, md_status = Draft, createdAt = Date (now env),
       updatedAt = Date (now env), md_parentDesign = None, tags = Some [], md_notes = Some [],
       exportedTo = None, md_version = None \<rparr>"

section \<open>The host: DesignManager and CanvasMessageHandler\<close>

record FileEntry =
  body :: string
  mtimeMs :: rat

datatype FsOp =
  FsCreateDirectory | FsCopy string | FsDelete string | FsUnlink string | FsWriteMetadata
  | FsCopyBack string | FsDeleteArchived string

datatype HostMessage =
  DesignsList "DesignFile list"
  | ErrorMessage string
  | PrimarySet "string option"

datatype HostError = FileNotFound string | IoFailure string | WriteFailure

datatype 'a result = Returned 'a | Thrown HostError

text \<open>
  The state of the host process.
  \<^item> \<open>design_iterations\<close> and \<open>design_archive\<close> are the two directories below
    \<open>.superdesign\<close>, as lists of files in the order \<open>readdirSync\<close> gives them;
    \<open>design_archive\<close> is \<open>None\<close> while the directory does not exist. A missing
    \<open>design_iterations\<close> directory behaves as an empty one in every operation below
    (\<open>getDesignFiles\<close> returns no design, a copy from it finds no file).
  \<^item> \<open>metadataFile\<close> is what \<open>design_metadata.json\<close> holds for \<open>loadMetadata\<close>:
    \<open>Some\<close> store when the file reads and parses to a store that passes
    \<open>isValidMetadataStore\<close>, \<open>None\<close> when it is absent, unreadable or rejected.
  \<^item> \<open>cache\<close> is the field \<open>DesignManager.cache\<close>.
  \<^item> \<open>hostPrimaryDesignId\<close> is the field \<open>CanvasMessageHandler.primaryDesignId\<close>,
    \<open>configPrimaryDesign\<close> the workspace setting \<open>superdesign.primaryDesign\<close>.
  \<^item> \<open>outbox\<close> collects what \<open>webview.postMessage\<close> has sent, \<open>journal\<close> the file
    system calls that were carried out, in order.
\<close>

record Host =
  design_iterations :: "(string \<times> FileEntry) list"
  design_archive :: "(string \<times> FileEntry) list option"
  metadataFile :: "DesignMetadataStore option"
  cache :: "DesignMetadataStore option"
  hostPrimaryDesignId :: "string option"
  configPrimaryDesign :: "string option"
  outbox :: "HostMessage list"
  journal :: "FsOp list"

subsection \<open>DesignManager\<close>

definition createEmptyStore :: "Env \<Rightarrow> DesignMetadataStore" where
  "createEmptyStore env = \<lparr> designs = [], lastUpdated = Date (now env), version = ''1.0.0'' \<rparr>"

text \<open>
  \<open>loadMetadata\<close> returns the cache when there is one; otherwise it reads the file, and
  a valid store becomes the cache. A store made by \<open>createEmptyStore\<close> is returned
  without being cached. The function has no path that throws.
\<close>

definition loadMetadata :: "Env \<Rightarrow> Host \<Rightarrow> Host \<times> DesignMetadataStore" where
  "loadMetadata env h =
     (case cache h of
        Some c \<Rightarrow> (h, c)
      | None \<Rightarrow>
          (case metadataFile h of
             Some data \<Rightarrow> (h\<lparr> cache := Some data \<rparr>, data)
           | None \<Rightarrow> (h, createEmptyStore env)))"

text \<open>
  The store that \<open>loadMetadata\<close> returns is the cache object itself whenever the cache
  is set after the call, and a fresh object otherwise. The operations write into that
  object in place, so each such write is a write to the cache when the cache is set.
  \<open>in_place f\<close> is one write \<open>f\<close> to the loaded store.
\<close>

definition in_place ::
  "(DesignMetadataStore \<Rightarrow> DesignMetadataStore) \<Rightarrow> Host \<times> DesignMetadataStore
     \<Rightarrow> Host \<times> DesignMetadataStore" where
  "in_place f hs =
     (case hs of (h, st) \<Rightarrow>
        ((case cache h of None \<Rightarrow> h | Some c \<Rightarrow> h\<lparr> cache := Some (f st) \<rparr>), f st))"

text \<open>
  What \<open>JSON.stringify\<close> writes and \<open>loadMetadata\<close> reads back: a valid date goes
  through its ISO string unchanged; an invalid date is written as \<open>null\<close>, and
  \<open>new Date(null)\<close> is the epoch.
\<close>

fun written_date :: "Date \<Rightarrow> Date" where
  "written_date (Date n) = Date n"
| "written_date InvalidDate = Date 0"

definition written_metadata :: "DesignMetadata \<Rightarrow> DesignMetadata" where
  "written_metadata m =
     m\<lparr> createdAt := written_date (createdAt m), updatedAt := written_date (updatedAt m) \<rparr>"

definition written_store :: "DesignMetadataStore \<Rightarrow> DesignMetadataStore" where
  "written_store st =
     st\<lparr> designs := map (\<lambda>(k, m). (k, written_metadata m)) (designs st),
         lastUpdated := written_date (lastUpdated st) \<rparr>"

definition saveMetadata :: "Env \<Rightarrow> Host \<times> DesignMetadataStore \<Rightarrow> Host \<times> unit result" where
  "saveMetadata env hs =
     (case in_place (\<lambda>st. st\<lparr> lastUpdated := Date (now env) \<rparr>) hs of (h1, st1) \<Rightarrow>
        if write_fails env then (h1, Thrown WriteFailure)
        else (h1\<lparr> metadataFile := Some (written_store st1), cache := Some st1,
                  journal := journal h1 @ [FsWriteMetadata] \<rparr>, Returned ()))"

definition getDesignMetadata :: "Env \<Rightarrow> string \<Rightarrow> Host \<Rightarrow> Host \<times> DesignMetadata option" where
  "getDesignMetadata env file h =
     (case loadMetadata env h of (h1, st) \<Rightarrow> (h1, map_of (designs st) file))"

definition setDesignMetadata ::
  "Env \<Rightarrow> string \<Rightarrow> DesignMetadata \<Rightarrow> Host \<Rightarrow> Host \<times> unit result" where
  "setDesignMetadata env file metadata h =
     saveMetadata env
       (in_place
          (\<lambda>st. st\<lparr> designs :=
             AList.update file (metadata\<lparr> updatedAt := Date (now env) \<rparr>) (designs st) \<rparr>)
          (loadMetadata env h))"

definition updateStatus :: "Env \<Rightarrow> string \<Rightarrow> DesignStatus \<Rightarrow> Host \<Rightarrow> Host \<times> unit result" where
  "updateStatus env file st h =
     saveMetadata env
       (in_place
          (\<lambda>store. store\<lparr> designs :=
             AList.map_entry file (\<lambda>m. m\<lparr> md_status := st, updatedAt := Date (now env) \<rparr>)
               (designs store) \<rparr>)
          (in_place
             (\<lambda>store. if map_of (designs store) file = None
                then store\<lparr> designs :=
                       AList.update file (createDefaultMetadata env file) (designs store) \<rparr>
                else store)
             (loadMetadata env h)))"

definition clearCache :: "Host \<Rightarrow> Host" where
  "clearCache h = h\<lparr> cache := None \<rparr>"

text \<open>Sequencing: a call that has thrown ends the operation with its state.\<close>

definition and_then ::
  "Host \<times> unit result \<Rightarrow> (Host \<Rightarrow> Host \<times> 'a result) \<Rightarrow> Host \<times> 'a result" where
  "and_then r f = (case r of (h, Thrown e) \<Rightarrow> (h, Thrown e) | (h, Returned u) \<Rightarrow> f h)"

text \<open>
  The file system calls of \<open>archiveDesign\<close>: \<open>stat\<close> of the archive directory and
  \<open>createDirectory\<close> when it is missing, \<open>copy\<close> with \<open>overwrite: true\<close>, and
  \<open>delete\<close> of the source.
\<close>

definition ensure_archive_dir :: "Env \<Rightarrow> Host \<Rightarrow> Host \<times> unit result" where
  "ensure_archive_dir env h =
     (case design_archive h of
        Some a \<Rightarrow> (h, Returned ())
      | None \<Rightarrow>
          if mkdir_fails env then (h, Thrown (IoFailure ''design_archive''))
          else (h\<lparr> design_archive := Some [], journal := journal h @ [FsCreateDirectory] \<rparr>,
                Returned ()))"

definition fs_copy :: "Env \<Rightarrow> string \<Rightarrow> Host \<Rightarrow> Host \<times> unit result" where
  "fs_copy env file h =
     (case map_of (design_iterations h) file of
        None \<Rightarrow> (h, Thrown (FileNotFound file))
      | Some entry \<Rightarrow>
          if copy_fails env file then (h, Thrown (IoFailure file))
          else (case design_archive h of
                  None \<Rightarrow> (h, Thrown (IoFailure ''design_archive''))
                | Some a \<Rightarrow>
                    (h\<lparr> design_archive := Some (AList.update file entry a),
                        journal := journal h @ [FsCopy file] \<rparr>, Returned ())))"

definition fs_delete :: "Env \<Rightarrow> string \<Rightarrow> Host \<Rightarrow> Host \<times> unit result" where
  "fs_delete env file h =
     (if map_of (design_iterations h) file = None then (h, Thrown (FileNotFound file))
      else if delete_fails env file then (h, Thrown (IoFailure file))
      else (h\<lparr> design_iterations := AList.delete file (design_iterations h),
                journal := journal h @ [FsDelete file] \<rparr>, Returned ()))"

definition archiveDesign :: "Env \<Rightarrow> string \<Rightarrow> Host \<Rightarrow> Host \<times> unit result" where
  "archiveDesign env file h =
     and_then (ensure_archive_dir env h) (\<lambda>h0.
       and_then (fs_copy env file h0) (\<lambda>h1.
         and_then (fs_delete env file h1) (\<lambda>h2.
           updateStatus env file Archived h2)))"

text \<open>
  The loop of \<open>archiveOldDesigns\<close> over \<open>Object.entries(store.designs)\<close>. An error of
  \<open>archiveDesign\<close> is logged and the loop goes on; \<open>archived\<close> counts the calls that
  returned. Each key occurs once, so no earlier round has written the record of a later
  entry.
\<close>

fun archive_each ::
  "Env \<Rightarrow> Date \<Rightarrow> (string \<times> DesignMetadata) list \<Rightarrow> Host \<Rightarrow> nat \<Rightarrow> Host \<times> nat" where
  "archive_each env cutoffDate [] h archived = (h, archived)"
| "archive_each env cutoffDate ((file, metadata) # rest) h archived =
     (if md_status metadata \<noteq> Approved \<and> md_status metadata \<noteq> Archived \<and>
         date_less (createdAt metadata) cutoffDate
      then (case archiveDesign env file h of
              (h1, Returned u) \<Rightarrow> archive_each env cutoffDate rest h1 (archived + 1)
            | (h1, Thrown e) \<Rightarrow> archive_each env cutoffDate rest h1 archived)
      else archive_each env cutoffDate rest h archived)"

definition archiveOldDesigns :: "Env \<Rightarrow> int \<Rightarrow> Host \<Rightarrow> Host \<times> nat" where
  "archiveOldDesigns env daysOld h =
     (case loadMetadata env h of (h1, store) \<Rightarrow>
        archive_each env (cutoff_date env daysOld) (designs store) h1 0)"

text \<open>
  The writes of \<open>updateNotes\<close>, \<open>addTag\<close> and \<open>removeTag\<close> on the loaded store, one
  definition per statement: \<open>if (!store.designs[fileName]) store.designs[fileName] =
  createDefaultMetadata(fileName)\<close>; the assignment of \<open>notes\<close> and \<open>updatedAt\<close>;
  \<open>if (!tags) tags = []\<close> (a missing list is falsy, \<open>[]\<close> is not); the \<open>push\<close> with
  \<open>updatedAt\<close>; the \<open>filter\<close> with \<open>updatedAt\<close>.
\<close>

definition ensure_record :: "Env \<Rightarrow> string \<Rightarrow> DesignMetadataStore \<Rightarrow> DesignMetadataStore" where
  "ensure_record env file store =
     (if map_of (designs store) file = None
      then store\<lparr> designs :=
             AList.update file (createDefaultMetadata env file) (designs store) \<rparr>
      else store)"

definition write_notes ::
  "Env \<Rightarrow> string \<Rightarrow> string \<Rightarrow> DesignMetadataStore \<Rightarrow> DesignMetadataStore" where
  "write_notes env file text store =
     store\<lparr> designs :=
       AList.map_entry file (\<lambda>m. m\<lparr> md_notes := Some text, updatedAt := Date (now env) \<rparr>)
         (designs store) \<rparr>"

definition ensure_tags :: "string \<Rightarrow> DesignMetadataStore \<Rightarrow> DesignMetadataStore" where
  "ensure_tags file store =
     store\<lparr> designs :=
       AList.map_entry file (\<lambda>m. if tags m = None then m\<lparr> tags := Some [] \<rparr> else m)
         (designs store) \<rparr>"

definition push_tag ::
  "Env \<Rightarrow> string \<Rightarrow> string \<Rightarrow> DesignMetadataStore \<Rightarrow> DesignMetadataStore" where
  "push_tag env file tag store =
     store\<lparr> designs :=
       AList.map_entry file
         (\<lambda>m. m\<lparr> tags := Some ((case tags m of None \<Rightarrow> [] | Some ts \<Rightarrow> ts) @ [tag]),
                  updatedAt := Date (now env) \<rparr>) (designs store) \<rparr>"

definition filter_tag ::
  "Env \<Rightarrow> string \<Rightarrow> string \<Rightarrow> DesignMetadataStore \<Rightarrow> DesignMetadataStore" where
  "filter_tag env file tag store =
     store\<lparr> designs :=
       AList.map_entry file
         (\<lambda>m. m\<lparr> tags := map_option (filter (\<lambda>t. t \<noteq> tag)) (tags m),
                  updatedAt := Date (now env) \<rparr>) (designs store) \<rparr>"

text \<open>
  \<open>updateNotes\<close> follows \<open>updateStatus\<close>. \<open>addTag\<close> saves only when the tag is new
  (\<open>!tags.includes(tag)\<close>); \<open>removeTag\<close> saves only when the record exists and has a
  tag list (\<open>store.designs[fileName]?.tags\<close>).
\<close>

definition updateNotes :: "Env \<Rightarrow> string \<Rightarrow> string \<Rightarrow> Host \<Rightarrow> Host \<times> unit result" where
  "updateNotes env file text h =
     saveMetadata env
       (in_place (write_notes env file text)
          (in_place (ensure_record env file) (loadMetadata env h)))"

definition has_tag :: "DesignMetadataStore \<Rightarrow> string \<Rightarrow> string \<Rightarrow> bool" where
  "has_tag store file tag =
     (case map_of (designs store) file of
        None \<Rightarrow> False
      | Some m \<Rightarrow> (case tags m of None \<Rightarrow> False | Some ts \<Rightarrow> tag \<in> set ts))"

definition addTag :: "Env \<Rightarrow> string \<Rightarrow> string \<Rightarrow> Host \<Rightarrow> Host \<times> unit result" where
  "addTag env file tag h =
     (case in_place (ensure_tags file)
             (in_place (ensure_record env file) (loadMetadata env h)) of
        (h1, store) \<Rightarrow>
          if \<not> has_tag store file tag
          then saveMetadata env (in_place (push_tag env file tag) (h1, store))
          else (h1, Returned ()))"

definition has_tags :: "DesignMetadataStore \<Rightarrow> string \<Rightarrow> bool" where
  "has_tags store file =
     (case map_of (designs store) file of None \<Rightarrow> False | Some m \<Rightarrow> tags m \<noteq> None)"

definition removeTag :: "Env \<Rightarrow> string \<Rightarrow> string \<Rightarrow> Host \<Rightarrow> Host \<times> unit result" where
  "removeTag env file tag h =
     (case loadMetadata env h of
        (h1, store) \<Rightarrow>
          if has_tags store file
          then saveMetadata env (in_place (filter_tag env file tag) (h1, store))
          else (h1, Returned ()))"

text \<open>
  \<open>restoreFromArchive\<close>: copy from the archive back to the document directory, delete
  the archived file, set the status to \<open>draft\<close>. \<open>deleteDesign\<close> deletes the file in
  the directory that \<open>fromArchive\<close> names, then deletes the record in place and saves.
\<close>

definition fs_copy_back :: "Env \<Rightarrow> string \<Rightarrow> Host \<Rightarrow> Host \<times> unit result" where
  "fs_copy_back env file h =
     (case design_archive h of
        None \<Rightarrow> (h, Thrown (FileNotFound file))
      | Some a \<Rightarrow>
          (case map_of a file of
             None \<Rightarrow> (h, Thrown (FileNotFound file))
           | Some entry \<Rightarrow>
               if copy_fails env file then (h, Thrown (IoFailure file))
               else (h\<lparr> design_iterations := AList.update file entry (design_iterations h),
                         journal := journal h @ [FsCopyBack file] \<rparr>, Returned ())))"

definition fs_delete_archived :: "Env \<Rightarrow> string \<Rightarrow> Host \<Rightarrow> Host \<times> unit result" where
  "fs_delete_archived env file h =
     (case design_archive h of
        None \<Rightarrow> (h, Thrown (FileNotFound file))
      | Some a \<Rightarrow>
          if map_of a file = None then (h, Thrown (FileNotFound file))
          else if delete_fails env file then (h, Thrown (IoFailure file))
          else (h\<lparr> design_archive := Some (AList.delete file a),
                    journal := journal h @ [FsDeleteArchived file] \<rparr>, Returned ()))"

definition restoreFromArchive :: "Env \<Rightarrow> string \<Rightarrow> Host \<Rightarrow> Host \<times> unit result" where
  "restoreFromArchive env file h =
     and_then (fs_copy_back env file h) (\<lambda>h1.
       and_then (fs_delete_archived env file h1) (\<lambda>h2.
         updateStatus env file Draft h2))"

definition deleteDesign :: "Env \<Rightarrow> string \<Rightarrow> bool \<Rightarrow> Host \<Rightarrow> Host \<times> unit result" where
  "deleteDesign env file fromArchive h =
     and_then (if fromArchive then fs_delete_archived env file h else fs_delete env file h)
       (\<lambda>h1. saveMetadata env
                (in_place (\<lambda>store. store\<lparr> designs := AList.delete file (designs store) \<rparr>)
                   (loadMetadata env h1)))"

text \<open>
  \<open>deleteAllArchived\<close> deletes every record whose status is \<open>archived\<close>, from the
  archive; like \<open>archiveOldDesigns\<close> it logs the error of a call and goes on.
\<close>

fun delete_each :: "Env \<Rightarrow> (string \<times> DesignMetadata) list \<Rightarrow> Host \<Rightarrow> nat \<Rightarrow> Host \<times> nat" where
  "delete_each env [] h deleted = (h, deleted)"
| "delete_each env ((file, metadata) # rest) h deleted =
     (case deleteDesign env file True h of
        (h1, Returned u) \<Rightarrow> delete_each env rest h1 (deleted + 1)
      | (h1, Thrown e) \<Rightarrow> delete_each env rest h1 deleted)"

definition deleteAllArchived :: "Env \<Rightarrow> Host \<Rightarrow> Host \<times> nat" where
  "deleteAllArchived env h =
     (case loadMetadata env h of (h1, store) \<Rightarrow>
        delete_each env (filter (\<lambda>(file, metadata). md_status metadata = Archived) (designs store))
          h1 0)"

text \<open>
  \<open>syncWithFileSystem\<close> gives a default record to every html or svg file that has
  none, in place, and saves when it added one. The whole body is in a \<open>try\<close> whose
  \<open>catch\<close> logs: an error of \<open>readDirectory\<close> (\<open>listing_fails\<close>) or of the save
  ends the operation without reaching the caller, whose promise resolves. Every entry
  of the modelled directory is a file.
\<close>

fun add_missing ::
  "Env \<Rightarrow> string list \<Rightarrow> Host \<times> DesignMetadataStore \<Rightarrow> nat
     \<Rightarrow> (Host \<times> DesignMetadataStore) \<times> nat" where
  "add_missing env [] hs added = (hs, added)"
| "add_missing env (file # rest) hs added =
     (if map_of (designs (snd hs)) file = None
      then add_missing env rest
             (in_place
                (\<lambda>store. store\<lparr> designs :=
                   AList.update file (createDefaultMetadata env file) (designs store) \<rparr>) hs)
             (added + 1)
      else add_missing env rest hs added)"

definition syncWithFileSystem :: "Env \<Rightarrow> Host \<Rightarrow> Host \<times> unit result" where
  "syncWithFileSystem env h =
     (if listing_fails env then (h, Returned ())
      else (case add_missing env
                   (map fst (filter (\<lambda>(f, entry). suffix ''.html'' f \<or> suffix ''.svg'' f)
                               (design_iterations h)))
                   (loadMetadata env h) 0 of
              (hs, added) \<Rightarrow>
                if added > 0
                then (case saveMetadata env hs of
                        (h1, Returned u) \<Rightarrow> (h1, Returned ())
                      | (h1, Thrown e) \<Rightarrow> (h1, Returned ()))
                else (fst hs, Returned ())))"

subsection \<open>CanvasMessageHandler\<close>

text \<open>
  \<open>s.includes(t)\<close>, and \<open>s.replace(t, '')\<close> with a string pattern, which removes the
  first occurrence of \<open>t\<close> only.
\<close>

fun str_includes :: "string \<Rightarrow> string \<Rightarrow> bool" where
  "str_includes t [] = (t = [])"
| "str_includes t (c # cs) = (prefix t (c # cs) \<or> str_includes t cs)"

fun remove_first :: "string \<Rightarrow> string \<Rightarrow> string" where
  "remove_first t [] = []"
| "remove_first t (c # cs) =
     (if prefix t (c # cs) then drop (length t) (c # cs) else c # remove_first t cs)"

definition design_dir :: string where
  "design_dir = ''.superdesign/design_iterations''"

definition toDesignFile :: "string \<Rightarrow> FileEntry \<Rightarrow> DesignMetadata option \<Rightarrow> DesignFile" where
  "toDesignFile file entry metadata =
     \<lparr> name = remove_first ''.html'' file,
       filePath = design_dir @ ''/'' @ file,
       content = body entry,
       viewport = (if str_includes ''mobile'' file then Mobile
                   else if str_includes ''tablet'' file then Tablet else Desktop),
       status = (case metadata of
                   None \<Rightarrow> Draft
                 | Some m \<Rightarrow> if md_status m = Exported then Archived else md_status m),
       timestamp = mtimeMs entry,
       parentDesign = (case metadata of None \<Rightarrow> None | Some m \<Rightarrow> md_parentDesign m) \<rparr>"

text \<open>The loop of \<open>getDesignFiles\<close> over the html files, one \<open>getDesignMetadata\<close> each.\<close>

fun collect_designs ::
  "Env \<Rightarrow> (string \<times> FileEntry) list \<Rightarrow> Host \<Rightarrow> Host \<times> DesignFile list" where
  "collect_designs env [] h = (h, [])"
| "collect_designs env ((file, entry) # rest) h =
     (case getDesignMetadata env file h of (h1, metadata) \<Rightarrow>
        (case collect_designs env rest h1 of (h2, ds) \<Rightarrow>
           (h2, toDesignFile file entry metadata # ds)))"

definition htmlFiles :: "Host \<Rightarrow> (string \<times> FileEntry) list" where
  "htmlFiles h = filter (\<lambda>(f, entry). suffix ''.html'' f) (design_iterations h)"

text \<open>
  \<open>designs.sort((a, b) => b.timestamp - a.timestamp)\<close> is a stable sort, newest first.
  \<open>listing_fails\<close> stands for an error of \<open>readdirSync\<close>, \<open>statSync\<close> or
  \<open>readFileSync\<close>.
\<close>

definition getDesignFiles :: "Env \<Rightarrow> Host \<Rightarrow> Host \<times> DesignFile list result" where
  "getDesignFiles env h =
     (if listing_fails env then (h, Thrown (IoFailure design_dir))
      else (case collect_designs env (htmlFiles h) h of (h1, ds) \<Rightarrow>
              (h1, Returned (sort_key (\<lambda>d. - timestamp d) ds))))"

definition sendDesignsList :: "Env \<Rightarrow> Host \<Rightarrow> Host" where
  "sendDesignsList env h =
     (case getDesignFiles env h of
        (h1, Returned ds) \<Rightarrow> h1\<lparr> outbox := outbox h1 @ [DesignsList ds] \<rparr>
      | (h1, Thrown e) \<Rightarrow> h1\<lparr> outbox := outbox h1 @ [ErrorMessage ''Failed to load designs''] \<rparr>)"

text \<open>
  \<open>setPrimaryDesign\<close> sets the pointer, writes it to the workspace configuration
  (\<open>savePrimaryDesign\<close>, taken to succeed) and posts \<open>design:primarySet\<close>.
\<close>

definition setPrimaryDesign :: "string option \<Rightarrow> Host \<Rightarrow> Host" where
  "setPrimaryDesign designId h =
     h\<lparr> hostPrimaryDesignId := designId, configPrimaryDesign := designId,
        outbox := outbox h @ [PrimarySet designId] \<rparr>"

text \<open>
  \<open>CanvasMessageHandler.deleteDesign\<close>: after the confirmation, \<open>unlinkSync\<close>, then the
  record is deleted from the loaded store in place and the store is saved.
\<close>

definition fs_unlink :: "Env \<Rightarrow> string \<Rightarrow> Host \<Rightarrow> Host \<times> unit result" where
  "fs_unlink env file h =
     (if map_of (design_iterations h) file = None then (h, Thrown (FileNotFound file))
      else if delete_fails env file then (h, Thrown (IoFailure file))
      else (h\<lparr> design_iterations := AList.delete file (design_iterations h),
                journal := journal h @ [FsUnlink file] \<rparr>, Returned ()))"

definition handler_deleteDesign :: "Env \<Rightarrow> string \<Rightarrow> Host \<Rightarrow> Host \<times> unit result" where
  "handler_deleteDesign env file h =
     (if user_confirms env
      then and_then (fs_unlink env file h) (\<lambda>h1.
             saveMetadata env
               (in_place (\<lambda>store. store\<lparr> designs := AList.delete file (designs store) \<rparr>)
                  (loadMetadata env h1)))
      else (h, Returned ()))"

text \<open>
  In the \<open>setStatus\<close> branch \<open>metadata\<close> is the record object that the loaded store
  holds, and a store that holds a record is the cache: \<open>metadata.status = value\<close>
  writes the record in the cache before \<open>setDesignMetadata\<close> is called.
\<close>

definition write_cached_record ::
  "string \<Rightarrow> (DesignMetadata \<Rightarrow> DesignMetadata) \<Rightarrow> Host \<Rightarrow> Host" where
  "write_cached_record file f h =
     (case cache h of
        None \<Rightarrow> h
      | Some c \<Rightarrow> h\<lparr> cache := Some (c\<lparr> designs := AList.map_entry file f (designs c) \<rparr>) \<rparr>)"

text \<open>
  \<open>copyPrompt\<close> reads the record (which may load the cache) and writes the clipboard;
  \<open>copyPath\<close> and \<open>openExternal\<close> touch the clipboard and the browser only. Clipboard,
  browser and notifications are outside the state.
\<close>

definition handleDesignAction ::
  "Env \<Rightarrow> string \<Rightarrow> DesignActionKind \<Rightarrow> Host \<Rightarrow> Host \<times> unit result" where
  "handleDesignAction env designId action h =
     (let file = designId @ ''.html'' in
      case action of
        SetStatus v \<Rightarrow>
          (case getDesignMetadata env file h of
             (h1, None) \<Rightarrow> (sendDesignsList env h1, Returned ())
           | (h1, Some metadata) \<Rightarrow>
               and_then
                 (setDesignMetadata env file (metadata\<lparr> md_status := v \<rparr>)
                    (write_cached_record file (\<lambda>m. m\<lparr> md_status := v \<rparr>) h1))
                 (\<lambda>h2. (sendDesignsList env h2, Returned ())))
      | CopyPrompt \<Rightarrow> (fst (getDesignMetadata env file h), Returned ())
      | CopyPath \<Rightarrow> (h, Returned ())
      | OpenExternal \<Rightarrow> (h, Returned ())
      | ArchiveAction \<Rightarrow>
          and_then (archiveDesign env file h) (\<lambda>h1. (sendDesignsList env h1, Returned ()))
      | DeleteAction \<Rightarrow>
          and_then (handler_deleteDesign env file h)
            (\<lambda>h1. (sendDesignsList env h1, Returned ()))
      | OtherAction a \<Rightarrow> (h, Returned ()))"

definition handleMessage :: "Env \<Rightarrow> WebviewRequest \<Rightarrow> Host \<Rightarrow> Host \<times> unit result" where
  "handleMessage env message h =
     (case message of
        CanvasReady \<Rightarrow> (sendDesignsList env h, Returned ())
      | DesignSetPrimary designId \<Rightarrow> (setPrimaryDesign designId h, Returned ())
      | DesignAction designId action \<Rightarrow> handleDesignAction env designId action h
      | ChatSetContext fileUri \<Rightarrow> (h, Returned ())
      | OtherCommand c \<Rightarrow> (h, Returned ()))"

text \<open>
  The webview's message listener (App.tsx): \<open>designs:list\<close> calls \<open>setDesigns\<close>,
  \<open>error\<close> calls \<open>setError\<close>, every other message leaves the store as it is.
\<close>

fun receive :: "HostMessage \<Rightarrow> CanvasStore \<Rightarrow> CanvasStore" where
  "receive (DesignsList ds) s = setDesigns ds s"
| "receive (ErrorMessage e) s = setError (Some e) s"
| "receive (PrimarySet designId) s = s"

section \<open>loadMetadata on what JSON.parse returns\<close>

text \<open>
  The host model above reads the metadata file as a store or as nothing. This section
  follows \<open>DesignManager.loadMetadata\<close> and \<open>isValidMetadataStore\<close> on any value that
  \<open>JSON.parse\<close> can return. A JavaScript value is \<open>undefined\<close>, \<open>null\<close>, a boolean, a
  number, a string, an array (its elements, and the named properties assigned to it), an
  object (its own properties in order) or a \<open>Date\<close>; \<open>JDate v\<close> is the object that
  \<open>new Date(v)\<close> builds. \<open>JSON.parse\<close> returns neither \<open>undefined\<close> nor a \<open>Date\<close>,
  and its arrays have no named property.
\<close>

datatype jsval =
  JUndefined | JNull | JBool bool | JNum rat | JStr string
  | JArr "jsval list" "(string \<times> jsval) list"
  | JObj "(string \<times> jsval) list"
  | JDate jsval

datatype jstype = TUndefined | TObject | TBoolean | TNumber | TString

text \<open>\<open>typeof null\<close> is \<open>'object'\<close>, as for arrays and objects.\<close>

fun typeof :: "jsval \<Rightarrow> jstype" where
  "typeof JUndefined = TUndefined"
| "typeof JNull = TObject"
| "typeof (JBool b) = TBoolean"
| "typeof (JNum n) = TNumber"
| "typeof (JStr s) = TString"
| "typeof (JArr vs ps) = TObject"
| "typeof (JObj kvs) = TObject"
| "typeof (JDate v) = TObject"

fun truthy :: "jsval \<Rightarrow> bool" where
  "truthy JUndefined = False"
| "truthy JNull = False"
| "truthy (JBool b) = b"
| "truthy (JNum n) = (n \<noteq> 0)"
| "truthy (JStr s) = (s \<noteq> [])"
| "truthy (JArr vs ps) = True"
| "truthy (JObj kvs) = True"
| "truthy (JDate v) = True"

text \<open>
  Reading or writing a property of \<open>null\<close> or \<open>undefined\<close> throws a TypeError. A
  property that is not there reads as \<open>undefined\<close> (no name read below is a property
  of \<open>Object.prototype\<close>). Writing a property of a boolean, a number or a string throws
  in strict mode and does nothing otherwise; \<open>strict\<close> says which mode the module runs
  in.
\<close>

datatype 'a completion = Normal 'a | TypeError

definition then_do :: "'a completion \<Rightarrow> ('a \<Rightarrow> 'b completion) \<Rightarrow> 'b completion" where
  "then_do c f = (case c of TypeError \<Rightarrow> TypeError | Normal x \<Rightarrow> f x)"

definition own :: "(string \<times> jsval) list \<Rightarrow> string \<Rightarrow> jsval" where
  "own kvs k = (case map_of kvs k of None \<Rightarrow> JUndefined | Some v \<Rightarrow> v)"

fun get_prop :: "jsval \<Rightarrow> string \<Rightarrow> jsval completion" where
  "get_prop JUndefined k = TypeError"
| "get_prop JNull k = TypeError"
| "get_prop (JObj kvs) k = Normal (own kvs k)"
| "get_prop (JArr vs ps) k = Normal (own ps k)"
| "get_prop v k = Normal JUndefined"

fun set_prop :: "bool \<Rightarrow> jsval \<Rightarrow> string \<Rightarrow> jsval \<Rightarrow> jsval completion" where
  "set_prop strict JUndefined k x = TypeError"
| "set_prop strict JNull k x = TypeError"
| "set_prop strict (JObj kvs) k x = Normal (JObj (AList.update k x kvs))"
| "set_prop strict (JArr vs ps) k x = Normal (JArr vs (AList.update k x ps))"
| "set_prop strict v k x = (if strict then TypeError else Normal v)"

text \<open>
  \<open>new Date(v)\<close> converts an object or array \<open>v\<close> to a primitive first. For a value
  of \<open>JSON.parse\<close> this throws a TypeError exactly when an own property \<open>toString\<close>
  (which is no function) hides the inherited method, in the object itself or in an
  object that the array joins.
\<close>

fun to_string_throws :: "jsval \<Rightarrow> bool" where
  "to_string_throws (JObj kvs) = (''toString'' \<in> fst ` set kvs)"
| "to_string_throws (JArr vs ps) = list_ex to_string_throws vs"
| "to_string_throws v = False"

definition new_Date :: "jsval \<Rightarrow> jsval completion" where
  "new_Date v = (if to_string_throws v then TypeError else Normal (JDate v))"

text \<open>
  \<open>data.designs[key].createdAt = new Date(data.designs[key].createdAt)\<close> and the same
  for \<open>updatedAt\<close>, for every \<open>key in data.designs\<close>: the properties of an object, the
  elements and properties of an array, nothing for \<open>null\<close>.
\<close>

definition convert_field :: "bool \<Rightarrow> string \<Rightarrow> jsval \<Rightarrow> jsval completion" where
  "convert_field strict k v =
     then_do (get_prop v k) (\<lambda>old. then_do (new_Date old) (\<lambda>d. set_prop strict v k d))"

definition convert_record :: "bool \<Rightarrow> jsval \<Rightarrow> jsval completion" where
  "convert_record strict v =
     then_do (convert_field strict ''createdAt'' v) (convert_field strict ''updatedAt'')"

fun convert_entries :: "bool \<Rightarrow> (string \<times> jsval) list \<Rightarrow> (string \<times> jsval) list completion" where
  "convert_entries strict [] = Normal []"
| "convert_entries strict ((k, v) # rest) =
     then_do (convert_record strict v) (\<lambda>v1.
       then_do (convert_entries strict rest) (\<lambda>rest1. Normal ((k, v1) # rest1)))"

fun convert_elements :: "bool \<Rightarrow> jsval list \<Rightarrow> jsval list completion" where
  "convert_elements strict [] = Normal []"
| "convert_elements strict (v # rest) =
     then_do (convert_record strict v) (\<lambda>v1.
       then_do (convert_elements strict rest) (\<lambda>rest1. Normal (v1 # rest1)))"

fun convert_designs :: "bool \<Rightarrow> jsval \<Rightarrow> jsval completion" where
  "convert_designs strict (JObj kvs) = then_do (convert_entries strict kvs) (\<lambda>kvs1. Normal (JObj kvs1))"
| "convert_designs strict (JArr vs ps) =
     then_do (convert_elements strict vs) (\<lambda>vs1.
       then_do (convert_entries strict ps) (\<lambda>ps1. Normal (JArr vs1 ps1)))"
| "convert_designs strict v = Normal v"

definition isValidMetadataStore :: "jsval \<Rightarrow> bool" where
  "isValidMetadataStore data =
     (truthy data \<and> typeof data = TObject \<and>
      (case get_prop data ''designs'' of TypeError \<Rightarrow> False | Normal v \<Rightarrow> typeof v = TObject) \<and>
      (case get_prop data ''version'' of TypeError \<Rightarrow> False | Normal v \<Rightarrow> typeof v = TString))"

definition convert_dates :: "bool \<Rightarrow> jsval \<Rightarrow> jsval completion" where
  "convert_dates strict data =
     then_do (get_prop data ''designs'') (\<lambda>ds.
       then_do (convert_designs strict ds) (\<lambda>ds1.
         then_do (set_prop strict data ''designs'' ds1) (\<lambda>data1.
           convert_field strict ''lastUpdated'' data1)))"

text \<open>
  What reading and parsing the file gives: \<open>readFile\<close> throws, \<open>JSON.parse\<close>
  throws, or a value. Both errors, and a TypeError of the conversion, end in the
  \<open>catch\<close> block, which returns \<open>createEmptyStore()\<close> without setting the cache.
\<close>

datatype file_read = ReadFails | NotJson | Parsed jsval

definition createEmptyStore_json :: "int \<Rightarrow> jsval" where
  "createEmptyStore_json t =
     JObj [(''designs'', JObj []), (''lastUpdated'', JDate (JNum (of_int t))),
           (''version'', JStr ''1.0.0'')]"

definition loadMetadata_json ::
  "bool \<Rightarrow> int \<Rightarrow> jsval option \<Rightarrow> file_read \<Rightarrow> jsval option \<times> jsval" where
  "loadMetadata_json strict t cached r =
     (case cached of
        Some c \<Rightarrow> (Some c, c)
      | None \<Rightarrow>
          (case r of
             ReadFails \<Rightarrow> (None, createEmptyStore_json t)
           | NotJson \<Rightarrow> (None, createEmptyStore_json t)
           | Parsed data \<Rightarrow>
               if isValidMetadataStore data
               then (case convert_dates strict data of
                       Normal d \<Rightarrow> (Some d, d)
                     | TypeError \<Rightarrow> (None, createEmptyStore_json t))
               else (None, createEmptyStore_json t)))"

text \<open>\<open>store.designs[fileName] || null\<close> of \<open>getDesignMetadata\<close>.\<close>

definition getDesignMetadata_json :: "jsval \<Rightarrow> string \<Rightarrow> jsval completion" where
  "getDesignMetadata_json store file =
     then_do (get_prop store ''designs'') (\<lambda>ds.
       then_do (get_prop ds file) (\<lambda>v. Normal (if truthy v then v else JNull)))"

section \<open>Environments, example states and auxiliary notions\<close>

text \<open>
  An environment in which no file system call fails, the user confirms the dialog, and
  the local time zone has days of 24 hours.
\<close>

definition quiet_env :: "int \<Rightarrow> Env" where
  "quiet_env t =
     \<lparr> now = t, cutoff_date = (\<lambda>daysOld. Date (t - daysOld * 86400000)),
       copy_fails = (\<lambda>f. False), delete_fails = (\<lambda>f. False), mkdir_fails = False,
       write_fails = False, listing_fails = False, user_confirms = True \<rparr>"

text \<open>A sequence of requests handled one after the other.\<close>

fun handle_all :: "Env \<Rightarrow> WebviewRequest list \<Rightarrow> Host \<Rightarrow> Host" where
  "handle_all env [] h = h"
| "handle_all env (m # ms) h = handle_all env ms (fst (handleMessage env m h))"

text \<open>
  The fields of the host that only \<open>setPrimaryDesign\<close> and \<open>sendDesignsList\<close> write.
\<close>

definition untouched :: "Host \<Rightarrow> Host \<Rightarrow> bool" where
  "untouched h h1 =
     (hostPrimaryDesignId h1 = hostPrimaryDesignId h \<and>
      configPrimaryDesign h1 = configPrimaryDesign h \<and> outbox h1 = outbox h)"

text \<open>What \<open>sendDesignsList\<close> posts for an outcome of \<open>getDesignFiles\<close>.\<close>

definition catalog_message :: "DesignFile list result \<Rightarrow> HostMessage" where
  "catalog_message r =
     (case r of Returned ds \<Rightarrow> DesignsList ds
              | Thrown e \<Rightarrow> ErrorMessage ''Failed to load designs'')"

text \<open>
  A host with two documents, \<open>a.html\<close> with a draft record in the metadata file and
  \<open>b_mobile.html\<close> without a record, before anything was loaded.
\<close>

definition example_host :: Host where
  "example_host =
     \<lparr> design_iterations =
         [(''a.html'', \<lparr> body = ''<p>a</p>'', mtimeMs = 1 \<rparr>),
          (''b_mobile.html'', \<lparr> body = ''<p>b</p>'', mtimeMs = 2 \<rparr>)],
       design_archive = None,
       metadataFile =
         Some \<lparr> designs =
                  [(''a.html'',
                    \<lparr> fileName = ''a.html'', md_status = Draft, createdAt = Date 10,
                      updatedAt = Date 10, md_parentDesign = None, tags = Some [],
                      md_notes = Some [], exportedTo = None, md_version = None \<rparr>)],
                lastUpdated = Date 10, version = ''1.0.0'' \<rparr>,
       cache = None, hostPrimaryDesignId = None, configPrimaryDesign = None,
       outbox = [], journal = [] \<rparr>"

text \<open>
  The two writes of \<open>updateStatus\<close> and the write of \<open>setDesignMetadata\<close> taken
  together, as functions of the loaded store.
\<close>

definition status_written ::
  "Env \<Rightarrow> string \<Rightarrow> DesignStatus \<Rightarrow> DesignMetadataStore \<Rightarrow> DesignMetadataStore" where
  "status_written env f s st =
     st\<lparr> designs :=
          AList.map_entry f (\<lambda>m. m\<lparr> md_status := s, updatedAt := Date (now env) \<rparr>)
            (if map_of (designs st) f = None
             then AList.update f (createDefaultMetadata env f) (designs st)
             else designs st) \<rparr>"

definition metadata_set ::
  "Env \<Rightarrow> string \<Rightarrow> DesignMetadata \<Rightarrow> DesignMetadataStore \<Rightarrow> DesignMetadataStore" where
  "metadata_set env f m st =
     st\<lparr> designs := AList.update f (m\<lparr> updatedAt := Date (now env) \<rparr>) (designs st) \<rparr>"

text \<open>
  A host with three documents and their records: \<open>a.html\<close>, an old draft;
  \<open>b.html\<close>, old and approved; \<open>c.html\<close>, a recent draft.
\<close>

definition aging_host :: Host where
  "aging_host =
     \<lparr> design_iterations =
         [(''a.html'', \<lparr> body = ''<p>a</p>'', mtimeMs = 1 \<rparr>),
          (''b.html'', \<lparr> body = ''<p>b</p>'', mtimeMs = 2 \<rparr>),
          (''c.html'', \<lparr> body = ''<p>c</p>'', mtimeMs = 3 \<rparr>)],
       design_archive = None,
       metadataFile =
         Some \<lparr> designs =
                  [(''a.html'',
                    \<lparr> fileName = ''a.html'', md_status = Draft, createdAt = Date 0,
                      updatedAt = Date 0, md_parentDesign = None, tags = Some [],
                      md_notes = Some [], exportedTo = None, md_version = None \<rparr>),
                   (''b.html'',
                    \<lparr> fileName = ''b.html'', md_status = Approved, createdAt = Date 0,
                      updatedAt = Date 0, md_parentDesign = None, tags = Some [],
                      md_notes = Some [], exportedTo = None, md_version = None \<rparr>),
                   (''c.html'',
                    \<lparr> fileName = ''c.html'', md_status = Draft,
                      createdAt = Date 9000000000, updatedAt = Date 9000000000,
                      md_parentDesign = None, tags = Some [], md_notes = Some [],
                      exportedTo = None, md_version = None \<rparr>)],
                lastUpdated = Date 9000000000, version = ''1.0.0'' \<rparr>,
       cache = None, hostPrimaryDesignId = None, configPrimaryDesign = None,
       outbox = [], journal = [] \<rparr>"

text \<open>
  What the host holds about one file name: the file in the archive directory, and, with
  \<open>keeps\<close>, that a second state has the same file in both directories and the same
  record as a first one. \<open>old_unapproved\<close> is the test of \<open>archiveOldDesigns\<close> on a
  record, \<open>archived_as\<close> the state of a document after it was archived.
\<close>

definition in_archive :: "Host \<Rightarrow> string \<Rightarrow> FileEntry option" where
  "in_archive h f = (case design_archive h of None \<Rightarrow> None | Some a \<Rightarrow> map_of a f)"

definition old_unapproved :: "Date \<Rightarrow> DesignMetadata \<Rightarrow> bool" where
  "old_unapproved cutoffDate metadata =
     (md_status metadata \<noteq> Approved \<and> md_status metadata \<noteq> Archived \<and>
      date_less (createdAt metadata) cutoffDate)"

definition keeps :: "Env \<Rightarrow> string \<Rightarrow> Host \<Rightarrow> Host \<Rightarrow> bool" where
  "keeps env f h h1 =
     (map_of (design_iterations h1) f = map_of (design_iterations h) f \<and>
      in_archive h1 f = in_archive h f \<and>
      snd (getDesignMetadata env f h1) = snd (getDesignMetadata env f h))"

definition archived_as :: "Env \<Rightarrow> string \<Rightarrow> FileEntry \<Rightarrow> Host \<Rightarrow> bool" where
  "archived_as env f e h =
     (map_of (design_iterations h) f = None \<and> in_archive h f = Some e \<and>
      (\<exists>m. snd (getDesignMetadata env f h) = Some m \<and> md_status m = Archived))"


section \<open>Properties of the view-state store\<close>

lemma addToCompare_length:
  "length (compareSet s) \<le> 3 \<Longrightarrow> length (compareSet (addToCompare ident s)) \<le> 3"
  by (auto simp: addToCompare_def Let_def)

lemma removeFromCompare_length:
  assumes "length (compareSet s) \<le> 3"
  shows "length (compareSet (removeFromCompare ident s)) \<le> 3"
proof -
  have "length (filter (\<lambda>cid. cid \<noteq> ident) (compareSet s)) \<le> length (compareSet s)"
    by (rule length_filter_le)
  from this assms have "length (filter (\<lambda>cid. cid \<noteq> ident) (compareSet s)) \<le> 3"
    by (rule order_trans)
  then show ?thesis by (simp add: removeFromCompare_def Let_def)
qed

lemma apply_action_compare_length:
  assumes "length (compareSet s) \<le> 3"
  shows "length (compareSet (apply_action a s)) \<le> 3"
  using assms
  by (cases a)
     (simp_all add: addToCompare_length removeFromCompare_length setMode_def setDesigns_def
        updateDesign_def setPrimaryDesignId_def Let_def clearCompare_def
        setStudioDesignId_def setFilters_def setIsLoading_def setError_def)

lemma run_actions_compare_length:
  "length (compareSet s) \<le> 3 \<Longrightarrow> length (compareSet (run_actions as s)) \<le> 3"
  by (induction as arbitrary: s) (simp_all add: apply_action_compare_length)




text \<open>
  C3, as the code has it: whatever actions are dispatched from the initial store, the
  compare-set has at most 3 members; and \<open>addToCompare\<close> of a name that is not a
  member, on a compare-set of 3, leaves the compare-set as it was (the three earliest
  members stay and the newcomer is dropped) and sets the mode to Compare.
\<close>

theorem addToCompare_bounded_keeps_earliest:
  "length (compareSet (run_actions as (initial_store api))) \<le> 3 \<and>
   (length (compareSet s) = 3 \<and> ident \<notin> set (compareSet s) \<longrightarrow>
      compareSet (addToCompare ident s) = compareSet s \<and>
      mode (addToCompare ident s) = Compare)"
proof
  show "length (compareSet (run_actions as (initial_store api))) \<le> 3"
    by (rule run_actions_compare_length) (simp add: initial_store_def)
next
  show "length (compareSet s) = 3 \<and> ident \<notin> set (compareSet s) \<longrightarrow>
      compareSet (addToCompare ident s) = compareSet s \<and>
      mode (addToCompare ident s) = Compare"
    by (simp add: addToCompare_def Let_def)
qed

theorem addToCompare_bounded_keeps_earliest_witness:
  "length (compareSet (run_actions
       [AddToCompare ''a'', AddToCompare ''b'', AddToCompare ''c'', AddToCompare ''d'']
       (initial_store True))) \<le> 3 \<and>
   length (compareSet (run_actions [AddToCompare ''a'', AddToCompare ''b'', AddToCompare ''c'']
       (initial_store True))) = 3 \<and>
   ''d'' \<notin> set (compareSet (run_actions
       [AddToCompare ''a'', AddToCompare ''b'', AddToCompare ''c''] (initial_store True))) \<and>
   compareSet (addToCompare ''d'' (run_actions
       [AddToCompare ''a'', AddToCompare ''b'', AddToCompare ''c''] (initial_store True)))
     = [''a'', ''b'', ''c''] \<and>
   mode (addToCompare ''d'' (run_actions
       [AddToCompare ''a'', AddToCompare ''b'', AddToCompare ''c''] (initial_store True)))
     = Compare"
  using addToCompare_bounded_keeps_earliest
    [of "[AddToCompare ''a'', AddToCompare ''b'', AddToCompare ''c'', AddToCompare ''d'']" True
        "run_actions [AddToCompare ''a'', AddToCompare ''b'', AddToCompare ''c'']
           (initial_store True)" "''d''"]
  by (simp add: addToCompare_def initial_store_def Let_def)

text \<open>
  C3 as the claim states it fails: with the compare-set \<open>[a, b, c]\<close>, adding \<open>d\<close>
  does not evict \<open>a\<close>; the set stays \<open>[a, b, c]\<close> and is not \<open>[b, c, d]\<close>.
\<close>

theorem addToCompare_fourth_does_not_evict_oldest:
  "compareSet (run_actions
      [AddToCompare ''a'', AddToCompare ''b'', AddToCompare ''c'', AddToCompare ''d'']
      (initial_store True)) = [''a'', ''b'', ''c''] \<and>
   compareSet (run_actions
      [AddToCompare ''a'', AddToCompare ''b'', AddToCompare ''c'', AddToCompare ''d'']
      (initial_store True)) \<noteq> [''b'', ''c'', ''d'']"
  by (simp add: addToCompare_def initial_store_def Let_def)



lemma activeDesignId_setDesigns: "activeDesignId (setDesigns ds s) = activeDesignId s"
  by (simp add: activeDesignId_def setDesigns_def)

text \<open>
  C1, as the code has it: a catalog update leaves the mode as it is, so Studio stays
  Studio; when no document of the new catalog has the name that studio-focus (or, when
  that is unset or empty, the primary pointer) holds, StudioView renders its
  "No design selected" page and no frame, and the back button of that page sets the
  mode to Gallery.
\<close>

theorem setDesigns_keeps_mode_studio_shows_empty:
  "mode (setDesigns ds s) = mode s \<and>
   ((\<forall>d\<in>set ds. Some (name d) \<noteq> activeDesignId s) \<longrightarrow>
      StudioView (setDesigns ds s) = StudioEmpty \<and>
      mode (studio_back (setDesigns ds s)) = Gallery)"
proof (intro conjI impI)
  show "mode (setDesigns ds s) = mode s" by (simp add: setDesigns_def)
next
  assume absent: "\<forall>d\<in>set ds. Some (name d) \<noteq> activeDesignId s"
  then have "find (\<lambda>d. Some (name d) = activeDesignId s) ds = None"
    by (simp add: find_None_iff)
  then have "find (\<lambda>d. Some (name d) = activeDesignId (setDesigns ds s))
               (designs_list (setDesigns ds s)) = None"
    by (simp add: setDesigns_def activeDesignId_def)
  then show "StudioView (setDesigns ds s) = StudioEmpty"
    by (simp add: StudioView_def)
next
  show "mode (studio_back (setDesigns ds s)) = Gallery"
    by (simp add: studio_back_def setMode_def)
qed

theorem setDesigns_keeps_mode_studio_shows_empty_witness:
  "mode (setDesigns
      [\<lparr> name = ''b'', filePath = ''.superdesign/design_iterations/b.html'', content = ''<p>'',
          viewport = Desktop, status = Draft, timestamp = 2, parentDesign = None \<rparr>]
      (run_actions [SetMode Studio (Some ''a'')] (initial_store True))) = Studio \<and>
   StudioView (setDesigns
      [\<lparr> name = ''b'', filePath = ''.superdesign/design_iterations/b.html'', content = ''<p>'',
          viewport = Desktop, status = Draft, timestamp = 2, parentDesign = None \<rparr>]
      (run_actions [SetMode Studio (Some ''a'')] (initial_store True))) = StudioEmpty \<and>
   mode (studio_back (setDesigns
      [\<lparr> name = ''b'', filePath = ''.superdesign/design_iterations/b.html'', content = ''<p>'',
          viewport = Desktop, status = Draft, timestamp = 2, parentDesign = None \<rparr>]
      (run_actions [SetMode Studio (Some ''a'')] (initial_store True)))) = Gallery"
  using setDesigns_keeps_mode_studio_shows_empty
    [of "[\<lparr> name = ''b'', filePath = ''.superdesign/design_iterations/b.html'',
            content = ''<p>'', viewport = Desktop, status = Draft, timestamp = 2,
            parentDesign = None \<rparr>]"
        "run_actions [SetMode Studio (Some ''a'')] (initial_store True)"]
  by (simp add: setMode_def initial_store_def activeDesignId_def or_else_def setDesigns_def)

text \<open>
  C1 as the claim states it fails: with \<open>a\<close> open in Studio, the catalog update that
  no longer lists \<open>a\<close> leaves the mode Studio, with studio-focus still \<open>a\<close>.
\<close>

theorem studio_stays_on_dangling_focus:
  "mode (run_actions
      [SetDesigns [\<lparr> name = ''a'', filePath = ''.superdesign/design_iterations/a.html'',
                     content = ''<p>'', viewport = Desktop, status = Draft, timestamp = 1,
                     parentDesign = None \<rparr>],
       SetMode Studio (Some ''a''), SetDesigns []] (initial_store True)) = Studio \<and>
   studioDesignId (run_actions
      [SetDesigns [\<lparr> name = ''a'', filePath = ''.superdesign/design_iterations/a.html'',
                     content = ''<p>'', viewport = Desktop, status = Draft, timestamp = 1,
                     parentDesign = None \<rparr>],
       SetMode Studio (Some ''a''), SetDesigns []] (initial_store True)) = Some ''a'' \<and>
   designs_list (run_actions
      [SetDesigns [\<lparr> name = ''a'', filePath = ''.superdesign/design_iterations/a.html'',
                     content = ''<p>'', viewport = Desktop, status = Draft, timestamp = 1,
                     parentDesign = None \<rparr>],
       SetMode Studio (Some ''a''), SetDesigns []] (initial_store True)) = [] \<and>
   mode (run_actions
      [SetDesigns [\<lparr> name = ''a'', filePath = ''.superdesign/design_iterations/a.html'',
                     content = ''<p>'', viewport = Desktop, status = Draft, timestamp = 1,
                     parentDesign = None \<rparr>],
       SetMode Studio (Some ''a''), SetDesigns []] (initial_store True)) \<noteq> Gallery"
  by (simp add: setMode_def initial_store_def or_else_def setDesigns_def)

section \<open>Properties of the host\<close>

subsection \<open>What each operation leaves alone\<close>

lemma loadMetadata_fst:
  "fst (loadMetadata env h) =
     h\<lparr> cache := (case cache h of Some c \<Rightarrow> Some c | None \<Rightarrow> metadataFile h) \<rparr>"
  by (simp add: loadMetadata_def split: option.splits)

lemma in_place_pair:
  "in_place f hs =
     ((fst hs)\<lparr> cache := (case cache (fst hs) of None \<Rightarrow> None | Some c \<Rightarrow> Some (f (snd hs))) \<rparr>,
      f (snd hs))"
  by (cases hs) (simp add: in_place_def split: option.splits)

lemma untouched_refl [simp]: "untouched h h"
  by (simp add: untouched_def)

lemma untouched_trans: "untouched h h1 \<Longrightarrow> untouched h1 h2 \<Longrightarrow> untouched h h2"
  by (simp add: untouched_def)

lemma loadMetadata_untouched: "untouched h (fst (loadMetadata env h))"
  by (simp add: loadMetadata_fst untouched_def)

lemma saveMetadata_untouched: "untouched (fst hs) (fst (saveMetadata env hs))"
  by (simp add: saveMetadata_def in_place_pair untouched_def)

lemma setDesignMetadata_untouched: "untouched h (fst (setDesignMetadata env file m h))"
proof -
  let ?hs = "in_place
          (\<lambda>st. st\<lparr> designs :=
             AList.update file (m\<lparr> updatedAt := Date (now env) \<rparr>) (designs st) \<rparr>)
          (loadMetadata env h)"
  have "untouched h (fst ?hs)"
    by (simp add: in_place_pair loadMetadata_fst untouched_def)
  moreover have "untouched (fst ?hs) (fst (saveMetadata env ?hs))"
    by (rule saveMetadata_untouched)
  ultimately show ?thesis
    unfolding setDesignMetadata_def by (rule untouched_trans)
qed

lemma updateStatus_untouched: "untouched h (fst (updateStatus env file st h))"
proof -
  let ?hs = "in_place
          (\<lambda>store. store\<lparr> designs :=
             AList.map_entry file (\<lambda>m. m\<lparr> md_status := st, updatedAt := Date (now env) \<rparr>)
               (designs store) \<rparr>)
          (in_place
             (\<lambda>store. if map_of (designs store) file = None
                then store\<lparr> designs :=
                       AList.update file (createDefaultMetadata env file) (designs store) \<rparr>
                else store)
             (loadMetadata env h))"
  have "untouched h (fst ?hs)"
    by (simp add: in_place_pair loadMetadata_fst untouched_def)
  moreover have "untouched (fst ?hs) (fst (saveMetadata env ?hs))"
    by (rule saveMetadata_untouched)
  ultimately show ?thesis
    unfolding updateStatus_def by (rule untouched_trans)
qed

lemma and_then_untouched:
  assumes "untouched h (fst r)" and "\<And>h1. untouched h h1 \<Longrightarrow> untouched h (fst (f h1))"
  shows "untouched h (fst (and_then r f))"
  using assms by (cases r) (auto simp: and_then_def split: result.splits)

lemma ensure_archive_dir_untouched: "untouched h (fst (ensure_archive_dir env h))"
  by (simp add: ensure_archive_dir_def untouched_def split: option.splits)

lemma fs_copy_untouched: "untouched h (fst (fs_copy env file h))"
  by (simp add: fs_copy_def untouched_def split: option.splits)

lemma fs_delete_untouched: "untouched h (fst (fs_delete env file h))"
  by (simp add: fs_delete_def untouched_def)

lemma fs_unlink_untouched: "untouched h (fst (fs_unlink env file h))"
  by (simp add: fs_unlink_def untouched_def)

lemma archiveDesign_untouched: "untouched h (fst (archiveDesign env file h))"
  unfolding archiveDesign_def
  by (intro and_then_untouched ensure_archive_dir_untouched)
     (blast intro: untouched_trans fs_copy_untouched fs_delete_untouched
        updateStatus_untouched)+

lemma loadMetadata_snd:
  "snd (loadMetadata env h) =
     (case cache h of
        Some c \<Rightarrow> c
      | None \<Rightarrow> (case metadataFile h of Some d \<Rightarrow> d | None \<Rightarrow> createEmptyStore env))"
  by (simp add: loadMetadata_def split: option.splits)

lemma loadMetadata_idem:
  "loadMetadata env (fst (loadMetadata env h)) =
     (fst (loadMetadata env h), snd (loadMetadata env h))"
  by (simp add: loadMetadata_def split: option.splits)

lemma getDesignMetadata_eq:
  "getDesignMetadata env file h =
     (fst (loadMetadata env h), map_of (designs (snd (loadMetadata env h))) file)"
  by (simp add: getDesignMetadata_def split: prod.splits)

lemma collect_designs_eq:
  "collect_designs env files h =
     ((if files = [] then h else fst (loadMetadata env h)),
      map (\<lambda>(file, entry).
             toDesignFile file entry (map_of (designs (snd (loadMetadata env h))) file)) files)"
proof (induction files arbitrary: h)
  case Nil
  show ?case by simp
next
  case (Cons fe rest)
  obtain f e where fe: "fe = (f, e)" by (cases fe)
  show ?case
    by (simp add: fe getDesignMetadata_eq Cons.IH loadMetadata_idem)
qed

lemma htmlFiles_cache_outbox [simp]:
  "htmlFiles (h\<lparr> cache := c \<rparr>) = htmlFiles h"
  "htmlFiles (h\<lparr> outbox := ob \<rparr>) = htmlFiles h"
  by (simp_all add: htmlFiles_def)

lemma htmlFiles_loadMetadata [simp]: "htmlFiles (fst (loadMetadata env h)) = htmlFiles h"
  by (simp add: loadMetadata_fst)

lemma loadMetadata_outbox_upd:
  "loadMetadata env (h\<lparr> outbox := ob \<rparr>) =
     ((fst (loadMetadata env h))\<lparr> outbox := ob \<rparr>, snd (loadMetadata env h))"
  by (simp add: loadMetadata_def split: option.splits)

lemma getDesignFiles_untouched: "untouched h (fst (getDesignFiles env h))"
  by (simp add: getDesignFiles_def collect_designs_eq loadMetadata_fst untouched_def)

lemma getDesignFiles_snd_stable:
  "snd (getDesignFiles env ((fst (getDesignFiles env h))\<lparr> outbox := ob \<rparr>)) =
     snd (getDesignFiles env h)"
  by (simp add: getDesignFiles_def collect_designs_eq loadMetadata_outbox_upd
        loadMetadata_idem)

lemma sendDesignsList_eq:
  "sendDesignsList env h =
     (fst (getDesignFiles env h))
       \<lparr> outbox := outbox h @ [catalog_message (snd (getDesignFiles env h))] \<rparr>"
proof -
  have ob: "outbox (fst (getDesignFiles env h)) = outbox h"
    using getDesignFiles_untouched [of h env] by (simp add: untouched_def)
  show ?thesis
    by (cases "getDesignFiles env h")
       (simp add: sendDesignsList_def catalog_message_def ob [symmetric] split: result.splits)
qed

lemma handler_deleteDesign_untouched: "untouched h (fst (handler_deleteDesign env f h))"
proof (cases "user_confirms env")
  case False
  then show ?thesis by (simp add: handler_deleteDesign_def)
next
  case True
  have step: "untouched h1 (fst (saveMetadata env
               (in_place (\<lambda>store. store\<lparr> designs := AList.delete f (designs store) \<rparr>)
                  (loadMetadata env h1))))" for h1
  proof -
    let ?hs = "in_place (\<lambda>store. store\<lparr> designs := AList.delete f (designs store) \<rparr>)
                  (loadMetadata env h1)"
    have "untouched h1 (fst ?hs)"
      by (simp add: in_place_pair loadMetadata_fst untouched_def)
    moreover have "untouched (fst ?hs) (fst (saveMetadata env ?hs))"
      by (rule saveMetadata_untouched)
    ultimately show ?thesis by (rule untouched_trans)
  qed
  show ?thesis
    unfolding handler_deleteDesign_def using True
    by (simp only: if_True)
       (intro and_then_untouched fs_unlink_untouched, blast intro: untouched_trans step)
qed

lemma write_cached_record_untouched: "untouched h (write_cached_record f g h)"
  by (simp add: write_cached_record_def untouched_def split: option.splits)

lemma sendDesignsList_primary:
  "hostPrimaryDesignId (sendDesignsList env h) = hostPrimaryDesignId h"
  using getDesignFiles_untouched [of h env]
  by (simp add: sendDesignsList_eq untouched_def)

lemma and_then_send:
  "and_then r (\<lambda>h1. (sendDesignsList env h1, Returned ())) = (h', Returned ()) \<Longrightarrow>
     \<exists>h1. r = (h1, Returned ()) \<and> h' = sendDesignsList env h1"
  by (cases r) (auto simp: and_then_def split: result.splits)

lemma and_then_send_primary:
  "untouched h (fst r) \<Longrightarrow>
   hostPrimaryDesignId (fst (and_then r (\<lambda>h1. (sendDesignsList env h1, Returned ())))) =
     hostPrimaryDesignId h"
  by (cases r) (auto simp: and_then_def sendDesignsList_primary untouched_def split: result.splits)

lemma handleDesignAction_SetStatus:
  "handleDesignAction env designId (SetStatus v) h =
     (case map_of (designs (snd (loadMetadata env h))) (designId @ ''.html'') of
        None \<Rightarrow> (sendDesignsList env (fst (loadMetadata env h)), Returned ())
      | Some metadata \<Rightarrow>
          and_then
            (setDesignMetadata env (designId @ ''.html'') (metadata\<lparr> md_status := v \<rparr>)
               (write_cached_record (designId @ ''.html'') (\<lambda>m. m\<lparr> md_status := v \<rparr>)
                  (fst (loadMetadata env h))))
            (\<lambda>h2. (sendDesignsList env h2, Returned ())))"
  by (simp add: handleDesignAction_def getDesignMetadata_eq Let_def split: option.splits)

lemma handleDesignAction_Archive:
  "handleDesignAction env designId ArchiveAction h =
     and_then (archiveDesign env (designId @ ''.html'') h)
       (\<lambda>h1. (sendDesignsList env h1, Returned ()))"
  by (simp add: handleDesignAction_def Let_def)

lemma handleDesignAction_Delete:
  "handleDesignAction env designId DeleteAction h =
     and_then (handler_deleteDesign env (designId @ ''.html'') h)
       (\<lambda>h1. (sendDesignsList env h1, Returned ()))"
  by (simp add: handleDesignAction_def Let_def)

lemma handleDesignAction_primary:
  "hostPrimaryDesignId (fst (handleDesignAction env designId action h)) = hostPrimaryDesignId h"
proof (cases action)
  case (SetStatus v)
  let ?f = "designId @ ''.html''"
  show ?thesis
  proof (cases "map_of (designs (snd (loadMetadata env h))) ?f")
    case None
    with SetStatus show ?thesis
      using loadMetadata_untouched [of h env]
      by (simp add: handleDesignAction_SetStatus sendDesignsList_primary untouched_def)
  next
    case (Some m)
    let ?h1 = "write_cached_record ?f (\<lambda>m. m\<lparr> md_status := v \<rparr>) (fst (loadMetadata env h))"
    have "untouched h ?h1"
      using loadMetadata_untouched [of h env] write_cached_record_untouched
      by (blast intro: untouched_trans)
    then have "untouched h (fst (setDesignMetadata env ?f (m\<lparr> md_status := v \<rparr>) ?h1))"
      using setDesignMetadata_untouched by (blast intro: untouched_trans)
    then show ?thesis
      using SetStatus Some
      by (simp add: handleDesignAction_SetStatus and_then_send_primary)
  qed
next
  case CopyPrompt
  then show ?thesis
    using loadMetadata_untouched [of h env]
    by (simp add: handleDesignAction_def getDesignMetadata_eq untouched_def Let_def)
next
  case ArchiveAction
  then show ?thesis
    by (simp add: handleDesignAction_Archive and_then_send_primary archiveDesign_untouched)
next
  case DeleteAction
  then show ?thesis
    by (simp add: handleDesignAction_Delete and_then_send_primary
          handler_deleteDesign_untouched)
qed (simp_all add: handleDesignAction_def Let_def)

subsection \<open>The primary pointer\<close>

text \<open>
  C2, as the code has it: the primary pointer is written by \<open>setPrimaryDesignId\<close> (in
  the webview) and \<open>setPrimaryDesign\<close> (in the host) only. No design action of the
  host, the delete action included, changes the host's pointer; no message from the
  host, the catalog update included, and no other action of the store changes the
  webview's pointer. Nothing clears it when the document it names is deleted.
\<close>

theorem primary_pointer_written_by_setPrimary_only:
  "hostPrimaryDesignId (fst (handleDesignAction env designId action h)) = hostPrimaryDesignId h \<and>
   primaryDesignId (receive m s) = primaryDesignId s \<and>
   ((\<forall>ident. a \<noteq> SetPrimaryDesignId ident) \<longrightarrow>
      primaryDesignId (apply_action a s) = primaryDesignId s)"
proof (intro conjI impI)
  show "hostPrimaryDesignId (fst (handleDesignAction env designId action h)) =
          hostPrimaryDesignId h"
    by (rule handleDesignAction_primary)
next
  show "primaryDesignId (receive m s) = primaryDesignId s"
    by (cases m) (simp_all add: setDesigns_def setError_def)
next
  assume "\<forall>ident. a \<noteq> SetPrimaryDesignId ident"
  then show "primaryDesignId (apply_action a s) = primaryDesignId s"
    by (cases a)
       (simp_all add: setMode_def setDesigns_def updateDesign_def addToCompare_def
          removeFromCompare_def clearCompare_def setStudioDesignId_def setFilters_def
          setIsLoading_def setError_def Let_def)
qed

text \<open>The definitions that a run of the host on a concrete state unfolds.\<close>

lemmas host_eval =
  quiet_env_def handleMessage_def handleDesignAction_def handler_deleteDesign_def
  and_then_def fs_unlink_def fs_copy_def fs_delete_def ensure_archive_dir_def
  archiveDesign_def updateStatus_def setDesignMetadata_def write_cached_record_def
  saveMetadata_def in_place_def loadMetadata_def createEmptyStore_def
  createDefaultMetadata_def sendDesignsList_def getDesignFiles_def htmlFiles_def
  getDesignMetadata_def toDesignFile_def written_store_def written_metadata_def
  design_dir_def setPrimaryDesign_def Let_def

theorem primary_pointer_written_by_setPrimary_only_witness:
  "hostPrimaryDesignId (fst (handleDesignAction (quiet_env 1000) ''a'' DeleteAction
      \<lparr> design_iterations = [(''a.html'', \<lparr> body = ''<p>'', mtimeMs = 1 \<rparr>)],
        design_archive = None, metadataFile = None, cache = None,
        hostPrimaryDesignId = Some ''a'', configPrimaryDesign = Some ''a'',
        outbox = [], journal = [] \<rparr>)) = Some ''a'' \<and>
   primaryDesignId (receive (DesignsList [])
      (run_actions [SetPrimaryDesignId (Some ''a'')] (initial_store True))) = Some ''a'' \<and>
   primaryDesignId (apply_action (SetDesigns [])
      (run_actions [SetPrimaryDesignId (Some ''a'')] (initial_store True))) = Some ''a''"
  using primary_pointer_written_by_setPrimary_only
    [of "quiet_env 1000" "''a''" DeleteAction
        "\<lparr> design_iterations = [(''a.html'', \<lparr> body = ''<p>'', mtimeMs = 1 \<rparr>)],
          design_archive = None, metadataFile = None, cache = None,
          hostPrimaryDesignId = Some ''a'', configPrimaryDesign = Some ''a'',
          outbox = [], journal = [] \<rparr>"
        "DesignsList []" "run_actions [SetPrimaryDesignId (Some ''a'')] (initial_store True)"
        "SetDesigns []"]
  by (simp add: setPrimaryDesignId_def initial_store_def Let_def)

text \<open>
  C2 as the claim states it fails: \<open>a\<close> is made primary and then deleted; the rebuilt
  catalog is empty, and both the host's and the webview's pointer still hold \<open>a\<close>.
\<close>

theorem primary_pointer_dangles_after_delete:
  "hostPrimaryDesignId (handle_all (quiet_env 1000)
      [DesignSetPrimary (Some ''a''), DesignAction ''a'' DeleteAction]
      \<lparr> design_iterations = [(''a.html'', \<lparr> body = ''<p>'', mtimeMs = 1 \<rparr>)],
        design_archive = None, metadataFile = None, cache = None,
        hostPrimaryDesignId = None, configPrimaryDesign = None,
        outbox = [], journal = [] \<rparr>) = Some ''a'' \<and>
   outbox (handle_all (quiet_env 1000)
      [DesignSetPrimary (Some ''a''), DesignAction ''a'' DeleteAction]
      \<lparr> design_iterations = [(''a.html'', \<lparr> body = ''<p>'', mtimeMs = 1 \<rparr>)],
        design_archive = None, metadataFile = None, cache = None,
        hostPrimaryDesignId = None, configPrimaryDesign = None,
        outbox = [], journal = [] \<rparr>) = [PrimarySet (Some ''a''), DesignsList []] \<and>
   primaryDesignId (receive (DesignsList [])
      (run_actions
         [SetDesigns [\<lparr> name = ''a'', filePath = ''.superdesign/design_iterations/a.html'',
                        content = ''<p>'', viewport = Desktop, status = Draft, timestamp = 1,
                        parentDesign = None \<rparr>],
          SetPrimaryDesignId (Some ''a'')] (initial_store True))) = Some ''a'' \<and>
   designs_list (receive (DesignsList [])
      (run_actions
         [SetDesigns [\<lparr> name = ''a'', filePath = ''.superdesign/design_iterations/a.html'',
                        content = ''<p>'', viewport = Desktop, status = Draft, timestamp = 1,
                        parentDesign = None \<rparr>],
          SetPrimaryDesignId (Some ''a'')] (initial_store True))) = []"
  by (simp add: host_eval setPrimaryDesignId_def setDesigns_def initial_store_def)

subsection \<open>The catalog push after a mutation\<close>

lemma getDesignFiles_fst:
  "fst (getDesignFiles env h) =
     (if listing_fails env \<or> htmlFiles h = [] then h else fst (loadMetadata env h))"
  by (simp add: getDesignFiles_def collect_designs_eq)

lemma loadMetadata_fst_idem:
  "fst (loadMetadata env (fst (loadMetadata env h))) = fst (loadMetadata env h)"
  by (simp add: loadMetadata_idem)

lemma getDesignFiles_after_send:
  "getDesignFiles env (sendDesignsList env h) =
     (sendDesignsList env h, snd (getDesignFiles env h))"
proof -
  let ?ob = "outbox h @ [catalog_message (snd (getDesignFiles env h))]"
  let ?h1 = "(fst (getDesignFiles env h))\<lparr> outbox := ?ob \<rparr>"
  have "fst (getDesignFiles env ?h1) = ?h1"
    by (simp add: getDesignFiles_fst loadMetadata_outbox_upd loadMetadata_fst_idem)
  moreover have "snd (getDesignFiles env ?h1) = snd (getDesignFiles env h)"
    by (rule getDesignFiles_snd_stable)
  ultimately have "getDesignFiles env ?h1 = (?h1, snd (getDesignFiles env h))"
    by (simp add: prod_eq_iff)
  then show ?thesis by (simp add: sendDesignsList_eq)
qed

lemma getDesignFiles_returns:
  "\<not> listing_fails env \<Longrightarrow> \<exists>ds. snd (getDesignFiles env h) = Returned ds"
  by (simp add: getDesignFiles_def split: prod.splits)

lemma sendDesignsList_full_push:
  assumes "\<not> listing_fails env"
  shows "\<exists>ds. getDesignFiles env (sendDesignsList env h) = (sendDesignsList env h, Returned ds) \<and>
              outbox (sendDesignsList env h) = outbox h @ [DesignsList ds]"
proof -
  from assms obtain ds where ds: "snd (getDesignFiles env h) = Returned ds"
    using getDesignFiles_returns by blast
  have "getDesignFiles env (sendDesignsList env h) = (sendDesignsList env h, Returned ds)"
    by (simp add: getDesignFiles_after_send ds)
  moreover have "outbox (sendDesignsList env h) = outbox h @ [DesignsList ds]"
    by (simp add: sendDesignsList_eq ds catalog_message_def)
  ultimately show ?thesis by blast
qed

lemma loadMetadata_snd_idem:
  "snd (loadMetadata env (fst (loadMetadata env h))) = snd (loadMetadata env h)"
  by (simp add: loadMetadata_idem)

lemma loadMetadata_snd_outbox:
  "snd (loadMetadata env (h\<lparr> outbox := ob \<rparr>)) = snd (loadMetadata env h)"
  by (simp add: loadMetadata_outbox_upd)

lemma sendDesignsList_store:
  "snd (loadMetadata env (sendDesignsList env h)) = snd (loadMetadata env h)"
  by (simp add: sendDesignsList_eq loadMetadata_snd_outbox getDesignFiles_fst
        loadMetadata_snd_idem)

lemma sendDesignsList_files:
  "metadataFile (sendDesignsList env h) = metadataFile h \<and>
   journal (sendDesignsList env h) = journal h \<and>
   design_iterations (sendDesignsList env h) = design_iterations h \<and>
   design_archive (sendDesignsList env h) = design_archive h"
  by (simp add: sendDesignsList_eq getDesignFiles_fst loadMetadata_fst)











text \<open>
  C10: when \<open>setStatus\<close> arrives for a design whose file has no metadata record, the
  handler returns; the metadata file is untouched (nothing is written), the table that
  \<open>loadMetadata\<close> gives is the same as before, with no record added and none
  changed; and the handler has posted the rebuilt list of designs.
\<close>

theorem setStatus_without_record_leaves_table:
  assumes absent: "snd (getDesignMetadata env (designId @ ''.html'') h) = None"
    and listing: "\<not> listing_fails env"
  shows "\<exists>h' ds. handleDesignAction env designId (SetStatus v) h = (h', Returned ()) \<and>
           metadataFile h' = metadataFile h \<and>
           snd (loadMetadata env h') = snd (loadMetadata env h) \<and>
           journal h' = journal h \<and>
           getDesignFiles env h' = (h', Returned ds) \<and>
           outbox h' = outbox h @ [DesignsList ds]"
proof -
  let ?h1 = "fst (loadMetadata env h)"
  let ?h' = "sendDesignsList env ?h1"
  from absent have none: "map_of (designs (snd (loadMetadata env h))) (designId @ ''.html'') = None"
    by (simp add: getDesignMetadata_eq)
  then have run: "handleDesignAction env designId (SetStatus v) h = (?h', Returned ())"
    by (simp add: handleDesignAction_SetStatus)
  have h1: "metadataFile ?h1 = metadataFile h" "journal ?h1 = journal h" "outbox ?h1 = outbox h"
    by (simp_all add: loadMetadata_fst)
  from sendDesignsList_full_push [OF listing, of ?h1]
  obtain ds where ds: "getDesignFiles env ?h' = (?h', Returned ds)"
    "outbox ?h' = outbox ?h1 @ [DesignsList ds]" by blast
  have "metadataFile ?h' = metadataFile h" "journal ?h' = journal h"
    using sendDesignsList_files [of env ?h1] h1 by simp_all
  moreover have "snd (loadMetadata env ?h') = snd (loadMetadata env h)"
    by (simp add: sendDesignsList_store loadMetadata_snd_idem)
  ultimately show ?thesis using run ds h1 by auto
qed

theorem setStatus_without_record_leaves_table_witness:
  "snd (getDesignMetadata (quiet_env 1000) (''b_mobile'' @ ''.html'') example_host) = None \<and>
   \<not> listing_fails (quiet_env 1000) \<and>
   (\<exists>h' ds. handleDesignAction (quiet_env 1000) ''b_mobile'' (SetStatus Approved) example_host =
              (h', Returned ()) \<and>
           metadataFile h' = metadataFile example_host \<and>
           snd (loadMetadata (quiet_env 1000) h') =
             snd (loadMetadata (quiet_env 1000) example_host) \<and>
           journal h' = journal example_host \<and>
           getDesignFiles (quiet_env 1000) h' = (h', Returned ds) \<and>
           outbox h' = outbox example_host @ [DesignsList ds])"
proof -
  have a: "snd (getDesignMetadata (quiet_env 1000) (''b_mobile'' @ ''.html'') example_host) = None"
    by (simp add: host_eval example_host_def)
  have l: "\<not> listing_fails (quiet_env 1000)" by (simp add: quiet_env_def)
  from setStatus_without_record_leaves_table [OF a l, where v = Approved] a l
  show ?thesis by blast
qed

subsection \<open>Archiving one document\<close>

lemma loadMetadata_snd_cong:
  "cache h2 = cache h \<Longrightarrow> metadataFile h2 = metadataFile h \<Longrightarrow>
     snd (loadMetadata env h2) = snd (loadMetadata env h)"
  by (simp add: loadMetadata_snd split: option.splits)

lemma and_then_Returned:
  "and_then r f = (h', Returned x) \<Longrightarrow> \<exists>h1. r = (h1, Returned ()) \<and> f h1 = (h', Returned x)"
  by (cases r) (auto simp: and_then_def split: result.splits)

lemma saveMetadata_Returned:
  assumes "saveMetadata env (h, st) = (h', Returned ())"
  shows "h' = h\<lparr> metadataFile := Some (written_store (st\<lparr> lastUpdated := Date (now env) \<rparr>)),
               cache := Some (st\<lparr> lastUpdated := Date (now env) \<rparr>),
               journal := journal h @ [FsWriteMetadata] \<rparr>"
  using assms
  by (auto simp: saveMetadata_def in_place_pair split: if_splits option.splits)

lemma updateStatus_eq:
  "updateStatus env f s h =
     saveMetadata env
       ((fst (loadMetadata env h))
          \<lparr> cache := (case cache (fst (loadMetadata env h)) of
                        None \<Rightarrow> None
                      | Some c \<Rightarrow> Some (status_written env f s (snd (loadMetadata env h)))) \<rparr>,
        status_written env f s (snd (loadMetadata env h)))"
  by (simp add: updateStatus_def in_place_pair status_written_def split: option.splits)

lemma status_written_entry:
  "\<exists>m. map_of (designs (status_written env f s st)) f = Some m \<and> md_status m = s"
  by (auto simp: status_written_def map_of_map_entry update_conv' split: option.splits)

lemma status_written_other:
  "g \<noteq> f \<Longrightarrow> map_of (designs (status_written env f s st)) g = map_of (designs st) g"
  by (auto simp: status_written_def map_of_map_entry update_conv')

lemma written_store_entry:
  "map_of (designs (written_store st)) f = map_option written_metadata (map_of (designs st) f)"
  by (simp add: written_store_def map_of_map)

lemma written_metadata_status [simp]: "md_status (written_metadata m) = md_status m"
  by (simp add: written_metadata_def)

lemma updateStatus_Returned:
  assumes "updateStatus env f s h = (h', Returned ())"
  shows "h' = h\<lparr> metadataFile :=
                  Some (written_store ((status_written env f s (snd (loadMetadata env h)))
                          \<lparr> lastUpdated := Date (now env) \<rparr>)),
                cache := Some ((status_written env f s (snd (loadMetadata env h)))
                          \<lparr> lastUpdated := Date (now env) \<rparr>),
                journal := journal h @ [FsWriteMetadata] \<rparr>"
  using saveMetadata_Returned [OF assms [unfolded updateStatus_eq]]
  by (simp add: loadMetadata_fst)

lemma ensure_archive_dir_Returned:
  assumes "ensure_archive_dir env h = (h0, Returned ())"
  shows "h0 = h\<lparr> design_archive := Some (case design_archive h of None \<Rightarrow> [] | Some a \<Rightarrow> a),
               journal := journal h @
                 (if design_archive h = None then [FsCreateDirectory] else []) \<rparr>"
  using assms by (auto simp: ensure_archive_dir_def split: option.splits if_splits)

lemma fs_copy_Returned:
  assumes "fs_copy env f h = (h1, Returned ())"
  shows "\<exists>e a. map_of (design_iterations h) f = Some e \<and> design_archive h = Some a \<and>
           h1 = h\<lparr> design_archive := Some (AList.update f e a),
                   journal := journal h @ [FsCopy f] \<rparr>"
  using assms by (auto simp: fs_copy_def split: option.splits if_splits)

lemma fs_delete_Returned:
  assumes "fs_delete env f h = (h2, Returned ())"
  shows "h2 = h\<lparr> design_iterations := AList.delete f (design_iterations h),
               journal := journal h @ [FsDelete f] \<rparr>"
  using assms by (auto simp: fs_delete_def split: if_splits)

lemma archiveDesign_Returned:
  assumes "archiveDesign env f h = (h', Returned ())"
  shows "\<exists>e. map_of (design_iterations h) f = Some e \<and>
           design_iterations h' = AList.delete f (design_iterations h) \<and>
           design_archive h' =
             Some (AList.update f e (case design_archive h of None \<Rightarrow> [] | Some a \<Rightarrow> a)) \<and>
           journal h' = journal h @
             (if design_archive h = None then [FsCreateDirectory] else []) @
             [FsCopy f, FsDelete f, FsWriteMetadata] \<and>
           metadataFile h' =
             Some (written_store ((status_written env f Archived (snd (loadMetadata env h)))
                     \<lparr> lastUpdated := Date (now env) \<rparr>)) \<and>
           cache h' = Some ((status_written env f Archived (snd (loadMetadata env h)))
                     \<lparr> lastUpdated := Date (now env) \<rparr>) \<and>
           hostPrimaryDesignId h' = hostPrimaryDesignId h \<and>
           configPrimaryDesign h' = configPrimaryDesign h \<and> outbox h' = outbox h"
proof -
  from assms obtain h0 where s0: "ensure_archive_dir env h = (h0, Returned ())"
    and r0: "and_then (fs_copy env f h0) (\<lambda>h1.
         and_then (fs_delete env f h1) (\<lambda>h2.
           updateStatus env f Archived h2)) = (h', Returned ())"
    unfolding archiveDesign_def by (blast dest: and_then_Returned)
  from r0 obtain h1 where s1: "fs_copy env f h0 = (h1, Returned ())"
    and r1: "and_then (fs_delete env f h1) (\<lambda>h2.
           updateStatus env f Archived h2) = (h', Returned ())"
    by (blast dest: and_then_Returned)
  from r1 obtain h2 where s2: "fs_delete env f h1 = (h2, Returned ())"
    and s3: "updateStatus env f Archived h2 = (h', Returned ())"
    by (blast dest: and_then_Returned)
  note e0 = ensure_archive_dir_Returned [OF s0]
  from fs_copy_Returned [OF s1] obtain e a where
    src: "map_of (design_iterations h0) f = Some e" and arch: "design_archive h0 = Some a"
    and e1: "h1 = h0\<lparr> design_archive := Some (AList.update f e a),
                      journal := journal h0 @ [FsCopy f] \<rparr>" by blast
  note e2 = fs_delete_Returned [OF s2]
  note e3 = updateStatus_Returned [OF s3]
  have h2: "design_iterations h2 = AList.delete f (design_iterations h)"
    "design_archive h2 = Some (AList.update f e a)"
    "journal h2 = journal h @ (if design_archive h = None then [FsCreateDirectory] else [])
                    @ [FsCopy f, FsDelete f]"
    "cache h2 = cache h" "metadataFile h2 = metadataFile h"
    "hostPrimaryDesignId h2 = hostPrimaryDesignId h"
    "configPrimaryDesign h2 = configPrimaryDesign h" "outbox h2 = outbox h"
    by (simp_all add: e2 e1 e0)
  have st: "snd (loadMetadata env h2) = snd (loadMetadata env h)"
    by (rule loadMetadata_snd_cong) (simp_all add: h2)
  have h': "design_iterations h' = design_iterations h2" "design_archive h' = design_archive h2"
    "journal h' = journal h2 @ [FsWriteMetadata]"
    "metadataFile h' =
       Some (written_store ((status_written env f Archived (snd (loadMetadata env h2)))
               \<lparr> lastUpdated := Date (now env) \<rparr>))"
    "cache h' = Some ((status_written env f Archived (snd (loadMetadata env h2)))
               \<lparr> lastUpdated := Date (now env) \<rparr>)"
    "hostPrimaryDesignId h' = hostPrimaryDesignId h2"
    "configPrimaryDesign h' = configPrimaryDesign h2" "outbox h' = outbox h2"
    by (subst e3, simp)+
  from src have "map_of (design_iterations h) f = Some e" by (simp add: e0)
  moreover from arch have "a = (case design_archive h of None \<Rightarrow> [] | Some a \<Rightarrow> a)"
    by (simp add: e0)
  ultimately show ?thesis
    by (simp add: h' st h2)
qed

lemma filePath_toDesignFile: "filePath (toDesignFile f e m) = design_dir @ ''/'' @ f"
  by (simp add: toDesignFile_def)

lemma getDesignFiles_paths:
  assumes "getDesignFiles env h = (h2, Returned ds)"
  shows "filePath ` set ds = (\<lambda>fe. design_dir @ ''/'' @ fst fe) ` set (htmlFiles h)"
proof -
  from assms have "ds = sort_key (\<lambda>d. - timestamp d)
      (map (\<lambda>(file, entry).
              toDesignFile file entry (map_of (designs (snd (loadMetadata env h))) file))
         (htmlFiles h))"
    by (auto simp: getDesignFiles_def collect_designs_eq split: if_splits)
  then show ?thesis
    by (simp add: image_image case_prod_beta filePath_toDesignFile)
qed

lemma htmlFiles_subset: "fst ` set (htmlFiles h) \<subseteq> fst ` set (design_iterations h)"
  by (auto simp: htmlFiles_def)

lemma not_listed_when_absent:
  assumes gone: "map_of (design_iterations h) f = None"
    and run: "getDesignFiles env h = (h2, Returned ds)"
  shows "\<forall>d\<in>set ds. filePath d \<noteq> design_dir @ ''/'' @ f"
proof
  fix d assume "d \<in> set ds"
  then have "filePath d \<in> (\<lambda>fe. design_dir @ ''/'' @ fst fe) ` set (htmlFiles h)"
    using getDesignFiles_paths [OF run] by blast
  then obtain fe where fe: "fe \<in> set (htmlFiles h)" "filePath d = design_dir @ ''/'' @ fst fe"
    by blast
  from fe(1) htmlFiles_subset have "fst fe \<in> fst ` set (design_iterations h)" by blast
  moreover from gone have "f \<notin> fst ` set (design_iterations h)"
    by (simp add: map_of_eq_None_iff)
  ultimately have "fst fe \<noteq> f" by blast
  with fe(2) show "filePath d \<noteq> design_dir @ ''/'' @ f" by simp
qed

lemma archiveDesign_journal_prefix:
  "\<exists>pre. journal (fst (archiveDesign env f h)) = journal h @ pre \<and>
         prefix pre ((if design_archive h = None then [FsCreateDirectory] else []) @
                     [FsCopy f, FsDelete f, FsWriteMetadata])"
  by (auto simp: archiveDesign_def and_then_def ensure_archive_dir_def fs_copy_def
        fs_delete_def updateStatus_eq saveMetadata_def in_place_pair loadMetadata_fst
        split: option.splits)

lemma archiveDesign_keeps_a_copy:
  assumes "map_of (design_iterations h) f = Some e"
  shows "map_of (design_iterations (fst (archiveDesign env f h))) f = Some e \<or>
         (\<exists>a. design_archive (fst (archiveDesign env f h)) = Some a \<and> map_of a f = Some e)"
  using assms
  by (auto simp: archiveDesign_def and_then_def ensure_archive_dir_def fs_copy_def
        fs_delete_def updateStatus_eq saveMetadata_def in_place_pair loadMetadata_fst
        update_conv' split: option.splits)

text \<open>
  C6: when \<open>archiveDesign\<close> returns, it has copied the file to the archive directory,
  then deleted the source, then written the metadata, in this order (after creating
  the archive directory when it was missing); the metadata file holds the status
  \<open>archived\<close> for the document; the archive holds the file as it was; the document
  directory no longer has it, and no later listing built from that directory has an
  entry for its path. Whatever the outcome, the calls carried out are an initial part
  of that sequence, so a delete never comes before the copy, and a file that was there
  is afterwards still in the document directory or in the archive.
\<close>

theorem archiveDesign_copies_then_deletes:
  "(archiveDesign env f h = (h', Returned ()) \<longrightarrow>
      journal h' = journal h @ (if design_archive h = None then [FsCreateDirectory] else []) @
                   [FsCopy f, FsDelete f, FsWriteMetadata] \<and>
      (\<exists>st m. metadataFile h' = Some st \<and> map_of (designs st) f = Some m \<and>
               md_status m = Archived) \<and>
      (\<exists>e a. map_of (design_iterations h) f = Some e \<and> design_archive h' = Some a \<and>
              map_of a f = Some e) \<and>
      map_of (design_iterations h') f = None \<and>
      (\<forall>env2 h2 ds. getDesignFiles env2 h' = (h2, Returned ds) \<longrightarrow>
         (\<forall>d\<in>set ds. filePath d \<noteq> design_dir @ ''/'' @ f))) \<and>
   (\<exists>pre. journal (fst (archiveDesign env f h)) = journal h @ pre \<and>
          prefix pre ((if design_archive h = None then [FsCreateDirectory] else []) @
                      [FsCopy f, FsDelete f, FsWriteMetadata])) \<and>
   (map_of (design_iterations h) f = Some e \<longrightarrow>
      map_of (design_iterations (fst (archiveDesign env f h))) f = Some e \<or>
      (\<exists>a. design_archive (fst (archiveDesign env f h)) = Some a \<and> map_of a f = Some e))"
proof (intro conjI impI)
  assume run: "archiveDesign env f h = (h', Returned ())"
  from archiveDesign_Returned [OF run] obtain e where
    src: "map_of (design_iterations h) f = Some e"
    and iter: "design_iterations h' = AList.delete f (design_iterations h)"
    and arch: "design_archive h' =
             Some (AList.update f e (case design_archive h of None \<Rightarrow> [] | Some a \<Rightarrow> a))"
    and jour: "journal h' = journal h @
             (if design_archive h = None then [FsCreateDirectory] else []) @
             [FsCopy f, FsDelete f, FsWriteMetadata]"
    and meta: "metadataFile h' =
             Some (written_store ((status_written env f Archived (snd (loadMetadata env h)))
                     \<lparr> lastUpdated := Date (now env) \<rparr>))"
    by blast
  from jour show "journal h' = journal h @
      (if design_archive h = None then [FsCreateDirectory] else []) @
      [FsCopy f, FsDelete f, FsWriteMetadata]" .
  from status_written_entry [of env f Archived "snd (loadMetadata env h)"]
  obtain m where m: "map_of (designs (status_written env f Archived (snd (loadMetadata env h)))) f
        = Some m" "md_status m = Archived" by blast
  have "map_of (designs (written_store ((status_written env f Archived (snd (loadMetadata env h)))
                     \<lparr> lastUpdated := Date (now env) \<rparr>))) f = Some (written_metadata m)"
    by (simp add: written_store_entry m)
  with meta m(2)
  show "\<exists>st m. metadataFile h' = Some st \<and> map_of (designs st) f = Some m \<and>
               md_status m = Archived"
    by (intro exI [of _ "written_store ((status_written env f Archived (snd (loadMetadata env h)))
                     \<lparr> lastUpdated := Date (now env) \<rparr>)"] exI [of _ "written_metadata m"]) simp
  from src arch
  show "\<exists>e a. map_of (design_iterations h) f = Some e \<and> design_archive h' = Some a \<and>
              map_of a f = Some e"
    by (simp add: update_conv')
  from iter show gone: "map_of (design_iterations h') f = None"
    by (simp add: delete_conv')
  show "\<forall>env2 h2 ds. getDesignFiles env2 h' = (h2, Returned ds) \<longrightarrow>
         (\<forall>d\<in>set ds. filePath d \<noteq> design_dir @ ''/'' @ f)"
    using not_listed_when_absent [OF gone] by blast
next
  show "\<exists>pre. journal (fst (archiveDesign env f h)) = journal h @ pre \<and>
          prefix pre ((if design_archive h = None then [FsCreateDirectory] else []) @
                      [FsCopy f, FsDelete f, FsWriteMetadata])"
    by (rule archiveDesign_journal_prefix)
next
  assume "map_of (design_iterations h) f = Some e"
  then show "map_of (design_iterations (fst (archiveDesign env f h))) f = Some e \<or>
      (\<exists>a. design_archive (fst (archiveDesign env f h)) = Some a \<and> map_of a f = Some e)"
    by (rule archiveDesign_keeps_a_copy)
qed

theorem archiveDesign_copies_then_deletes_witness:
  "snd (archiveDesign (quiet_env 1000) ''a.html'' example_host) = Returned () \<and>
   journal (fst (archiveDesign (quiet_env 1000) ''a.html'' example_host)) =
     [FsCreateDirectory, FsCopy ''a.html'', FsDelete ''a.html'', FsWriteMetadata] \<and>
   (\<exists>st m. metadataFile (fst (archiveDesign (quiet_env 1000) ''a.html'' example_host)) = Some st \<and>
       map_of (designs st) ''a.html'' = Some m \<and> md_status m = Archived) \<and>
   map_of (design_iterations (fst (archiveDesign (quiet_env 1000) ''a.html'' example_host)))
     ''a.html'' = None \<and>
   map_of (design_iterations example_host) ''a.html'' =
     Some \<lparr> body = ''<p>a</p>'', mtimeMs = 1 \<rparr> \<and>
   design_archive (fst (archiveDesign (quiet_env 1000) ''a.html'' example_host)) =
     Some [(''a.html'', \<lparr> body = ''<p>a</p>'', mtimeMs = 1 \<rparr>)] \<and>
   snd (getDesignFiles (quiet_env 1000)
          (fst (archiveDesign (quiet_env 1000) ''a.html'' example_host))) =
     Returned [\<lparr> name = ''b_mobile'',
                 filePath = ''.superdesign/design_iterations/b_mobile.html'',
                 content = ''<p>b</p>'', viewport = Mobile, status = Draft, timestamp = 2,
                 parentDesign = None \<rparr>]"
proof -
  let ?h' = "fst (archiveDesign (quiet_env 1000) ''a.html'' example_host)"
  have r: "snd (archiveDesign (quiet_env 1000) ''a.html'' example_host) = Returned ()"
    by (simp add: host_eval example_host_def)
  then have run: "archiveDesign (quiet_env 1000) ''a.html'' example_host = (?h', Returned ())"
    by (simp add: prod_eq_iff)
  have src: "map_of (design_iterations example_host) ''a.html'' =
     Some \<lparr> body = ''<p>a</p>'', mtimeMs = 1 \<rparr>"
    by (simp add: example_host_def)
  have none: "design_archive example_host = None" by (simp add: example_host_def)
  have j0: "journal example_host = []" by (simp add: example_host_def)
  from archiveDesign_copies_then_deletes
    [of "quiet_env 1000" "''a.html''" example_host ?h' "\<lparr> body = ''<p>a</p>'', mtimeMs = 1 \<rparr>"]
    run
  have j: "journal ?h' = journal example_host @
             (if design_archive example_host = None then [FsCreateDirectory] else []) @
             [FsCopy ''a.html'', FsDelete ''a.html'', FsWriteMetadata]"
    and st: "\<exists>st m. metadataFile ?h' = Some st \<and> map_of (designs st) ''a.html'' = Some m \<and>
               md_status m = Archived"
    and gone: "map_of (design_iterations ?h') ''a.html'' = None"
    by blast+
  have arch: "design_archive ?h' = Some [(''a.html'', \<lparr> body = ''<p>a</p>'', mtimeMs = 1 \<rparr>)]"
    by (simp add: host_eval example_host_def)
  have listing: "snd (getDesignFiles (quiet_env 1000) ?h') =
     Returned [\<lparr> name = ''b_mobile'',
                 filePath = ''.superdesign/design_iterations/b_mobile.html'',
                 content = ''<p>b</p>'', viewport = Mobile, status = Draft, timestamp = 2,
                 parentDesign = None \<rparr>]"
    by (simp add: host_eval example_host_def suffix_to_prefix)
  from j have "journal ?h' =
     [FsCreateDirectory, FsCopy ''a.html'', FsDelete ''a.html'', FsWriteMetadata]"
    by (simp add: none j0)
  with r st gone src arch listing show ?thesis by simp
qed

subsection \<open>A write of the metadata file that fails\<close>

lemma saveMetadata_failed:
  assumes "write_fails env"
  shows "saveMetadata env (h, st) =
     (h\<lparr> cache := (case cache h of
                      None \<Rightarrow> None
                    | Some c \<Rightarrow> Some (st\<lparr> lastUpdated := Date (now env) \<rparr>)) \<rparr>,
      Thrown WriteFailure)"
  using assms by (simp add: saveMetadata_def in_place_pair split: option.splits)

lemma updateStatus_failed:
  assumes "write_fails env"
  shows "updateStatus env f s h =
     (h\<lparr> cache := (if cache h = None \<and> metadataFile h = None then None
                    else Some ((status_written env f s (snd (loadMetadata env h)))
                                 \<lparr> lastUpdated := Date (now env) \<rparr>)) \<rparr>,
      Thrown WriteFailure)"
  using assms
  by (auto simp: updateStatus_eq saveMetadata_failed loadMetadata_fst split: option.splits)

lemma setDesignMetadata_eq:
  "setDesignMetadata env f m h =
     saveMetadata env
       ((fst (loadMetadata env h))
          \<lparr> cache := (case cache (fst (loadMetadata env h)) of
                        None \<Rightarrow> None
                      | Some c \<Rightarrow> Some (metadata_set env f m (snd (loadMetadata env h)))) \<rparr>,
        metadata_set env f m (snd (loadMetadata env h)))"
  by (simp add: setDesignMetadata_def in_place_pair metadata_set_def split: option.splits)

lemma setDesignMetadata_failed:
  assumes "write_fails env"
  shows "setDesignMetadata env f m h =
     (h\<lparr> cache := (if cache h = None \<and> metadataFile h = None then None
                    else Some ((metadata_set env f m (snd (loadMetadata env h)))
                                 \<lparr> lastUpdated := Date (now env) \<rparr>)) \<rparr>,
      Thrown WriteFailure)"
  using assms
  by (auto simp: setDesignMetadata_eq saveMetadata_failed loadMetadata_fst split: option.splits)

lemma saveMetadata_thrown:
  "write_fails env \<Longrightarrow> snd (saveMetadata env hs) = Thrown WriteFailure"
  by (cases hs) (simp add: saveMetadata_failed)

lemma in_place_comp: "in_place G (in_place F hs) = in_place (\<lambda>st. G (F st)) hs"
  by (cases hs) (simp add: in_place_def split: option.splits)

lemma failed_save_reads:
  assumes "write_fails env" and "cache h \<noteq> None \<or> metadataFile h \<noteq> None"
  shows "snd (loadMetadata env (fst (saveMetadata env (in_place F (loadMetadata env h))))) =
           (F (snd (loadMetadata env h)))\<lparr> lastUpdated := Date (now env) \<rparr>"
  using assms
  by (auto simp: saveMetadata_def in_place_def loadMetadata_def split: option.splits)

lemma and_then_thrown:
  assumes "\<And>h1. \<exists>e. snd (g h1) = Thrown e"
  shows "\<exists>e. snd (and_then r g) = Thrown e"
proof (cases r)
  case (Pair h1 r1)
  then show ?thesis using assms [of h1] by (cases r1) (simp_all add: and_then_def)
qed

lemma updateStatus_thrown:
  "write_fails env \<Longrightarrow> snd (updateStatus env f s h) = Thrown WriteFailure"
  unfolding updateStatus_def by (rule saveMetadata_thrown)

lemma setDesignMetadata_thrown:
  "write_fails env \<Longrightarrow> snd (setDesignMetadata env f m h) = Thrown WriteFailure"
  unfolding setDesignMetadata_def by (rule saveMetadata_thrown)

lemma updateNotes_thrown:
  "write_fails env \<Longrightarrow> snd (updateNotes env f text h) = Thrown WriteFailure"
  unfolding updateNotes_def by (rule saveMetadata_thrown)

lemma updateNotes_failed_read:
  assumes "write_fails env" and "cache h \<noteq> None \<or> metadataFile h \<noteq> None"
  shows "\<exists>m. snd (getDesignMetadata env f (fst (updateNotes env f text h))) = Some m \<and>
             md_notes m = Some text"
  unfolding updateNotes_def in_place_comp getDesignMetadata_eq failed_save_reads [OF assms]
  by (auto simp: write_notes_def ensure_record_def map_of_map_entry update_conv'
        split: option.splits)

lemma has_tag_prepared:
  "has_tag (ensure_tags f (ensure_record env f st)) f t = has_tag st f t"
  by (auto simp: has_tag_def ensure_tags_def ensure_record_def map_of_map_entry update_conv'
        createDefaultMetadata_def split: option.splits)

lemma addTag_eq:
  "addTag env f t h =
     (if has_tag (snd (loadMetadata env h)) f t
      then (fst (in_place (\<lambda>st. ensure_tags f (ensure_record env f st)) (loadMetadata env h)),
            Returned ())
      else saveMetadata env
             (in_place (\<lambda>st. push_tag env f t (ensure_tags f (ensure_record env f st)))
                (loadMetadata env h)))"
proof -
  let ?hs = "in_place (\<lambda>st. ensure_tags f (ensure_record env f st)) (loadMetadata env h)"
  have hs: "in_place (ensure_tags f) (in_place (ensure_record env f) (loadMetadata env h)) = ?hs"
    by (rule in_place_comp)
  have sn: "snd ?hs = ensure_tags f (ensure_record env f (snd (loadMetadata env h)))"
    by (simp add: in_place_pair)
  have "addTag env f t h =
          (if \<not> has_tag (snd ?hs) f t then saveMetadata env (in_place (push_tag env f t) ?hs)
           else (fst ?hs, Returned ()))"
    unfolding addTag_def hs by (simp add: case_prod_beta)
  then show ?thesis
    unfolding sn has_tag_prepared in_place_comp by simp
qed

lemma addTag_thrown:
  assumes "write_fails env"
  shows "snd (addTag env f t h) =
           (if has_tag (snd (loadMetadata env h)) f t then Returned () else Thrown WriteFailure)"
  by (simp add: addTag_eq saveMetadata_thrown [OF assms])

lemma push_tag_entry:
  "\<exists>m ts. map_of (designs (push_tag env f t (ensure_tags f (ensure_record env f st)))) f = Some m \<and>
          tags m = Some ts \<and> t \<in> set ts"
  by (auto simp: push_tag_def ensure_tags_def ensure_record_def map_of_map_entry update_conv'
        split: option.splits)

lemma addTag_failed_read:
  assumes "write_fails env" and "cache h \<noteq> None \<or> metadataFile h \<noteq> None"
    and "\<not> has_tag (snd (loadMetadata env h)) f t"
  shows "\<exists>m ts. snd (getDesignMetadata env f (fst (addTag env f t h))) = Some m \<and>
                tags m = Some ts \<and> t \<in> set ts"
  using assms(3) push_tag_entry [of env f t "snd (loadMetadata env h)"]
  by (simp add: addTag_eq getDesignMetadata_eq failed_save_reads [OF assms(1,2)])

lemma removeTag_eq:
  "removeTag env f t h =
     (if has_tags (snd (loadMetadata env h)) f
      then saveMetadata env (in_place (filter_tag env f t) (loadMetadata env h))
      else (fst (loadMetadata env h), Returned ()))"
  by (simp add: removeTag_def case_prod_beta)

lemma removeTag_thrown:
  assumes "write_fails env"
  shows "snd (removeTag env f t h) =
           (if has_tags (snd (loadMetadata env h)) f then Thrown WriteFailure else Returned ())"
  by (simp add: removeTag_eq saveMetadata_thrown [OF assms])

lemma filter_tag_entry:
  "has_tags st f \<Longrightarrow>
   \<exists>m ts. map_of (designs (filter_tag env f t st)) f = Some m \<and> tags m = Some ts \<and> t \<notin> set ts"
  by (auto simp: has_tags_def filter_tag_def map_of_map_entry split: option.splits)

lemma removeTag_failed_read:
  assumes "write_fails env" and "cache h \<noteq> None \<or> metadataFile h \<noteq> None"
    and "has_tags (snd (loadMetadata env h)) f"
  shows "\<exists>m ts. snd (getDesignMetadata env f (fst (removeTag env f t h))) = Some m \<and>
                tags m = Some ts \<and> t \<notin> set ts"
  using assms(3) filter_tag_entry [OF assms(3), of env t]
  by (simp add: removeTag_eq getDesignMetadata_eq failed_save_reads [OF assms(1,2)])

lemma archiveDesign_thrown:
  assumes "write_fails env"
  shows "\<exists>e. snd (archiveDesign env f h) = Thrown e"
  unfolding archiveDesign_def
  by (intro and_then_thrown) (simp add: updateStatus_thrown [OF assms])

lemma restoreFromArchive_thrown:
  assumes "write_fails env"
  shows "\<exists>e. snd (restoreFromArchive env f h) = Thrown e"
  unfolding restoreFromArchive_def
  by (intro and_then_thrown) (simp add: updateStatus_thrown [OF assms])

lemma deleteDesign_thrown:
  assumes "write_fails env"
  shows "\<exists>e. snd (deleteDesign env f b h) = Thrown e"
  unfolding deleteDesign_def
  by (intro and_then_thrown) (simp add: saveMetadata_thrown [OF assms])

lemma archive_each_none:
  assumes "write_fails env"
  shows "snd (archive_each env c xs h n) = n"
proof (induction xs arbitrary: h n)
  case Nil
  show ?case by simp
next
  case (Cons x xs)
  obtain f m where x: "x = (f, m)" by (cases x)
  obtain h1 e where a: "archiveDesign env f h = (h1, Thrown e)"
    using archiveDesign_thrown [OF assms, of f h] by (cases "archiveDesign env f h") auto
  show ?case by (simp add: x a Cons.IH)
qed

lemma delete_each_none:
  assumes "write_fails env"
  shows "snd (delete_each env xs h n) = n"
proof (induction xs arbitrary: h n)
  case Nil
  show ?case by simp
next
  case (Cons x xs)
  obtain f m where x: "x = (f, m)" by (cases x)
  obtain h1 e where a: "deleteDesign env f True h = (h1, Thrown e)"
    using deleteDesign_thrown [OF assms, of f True h] by (cases "deleteDesign env f True h") auto
  show ?case by (simp add: x a Cons.IH)
qed

lemma archiveOldDesigns_none:
  "write_fails env \<Longrightarrow> snd (archiveOldDesigns env d h) = 0"
  by (simp add: archiveOldDesigns_def case_prod_beta archive_each_none)

lemma deleteAllArchived_none:
  "write_fails env \<Longrightarrow> snd (deleteAllArchived env h) = 0"
  by (simp add: deleteAllArchived_def case_prod_beta delete_each_none)

lemma syncWithFileSystem_returns: "snd (syncWithFileSystem env h) = Returned ()"
  by (simp add: syncWithFileSystem_def split: prod.splits result.splits)


lemma updateStatus_failed_read:
  assumes "write_fails env" and "cache h \<noteq> None \<or> metadataFile h \<noteq> None"
  shows "\<exists>m. snd (getDesignMetadata env f (fst (updateStatus env f s h))) = Some m \<and>
             md_status m = s"
proof -
  from status_written_entry [of env f s "snd (loadMetadata env h)"]
  obtain m' where m': "map_of (designs (status_written env f s (snd (loadMetadata env h)))) f
      = Some m'" "md_status m' = s" by blast
  have "snd (getDesignMetadata env f (fst (updateStatus env f s h))) = Some m'"
    using m'(1) assms(2)
    by (auto simp: updateStatus_failed [OF assms(1)] getDesignMetadata_eq loadMetadata_snd
          split: option.splits)
  with m'(2) show ?thesis by blast
qed

lemma setDesignMetadata_failed_read:
  assumes "write_fails env" and "cache h \<noteq> None \<or> metadataFile h \<noteq> None"
  shows "snd (getDesignMetadata env f (fst (setDesignMetadata env f m h))) =
           Some (m\<lparr> updatedAt := Date (now env) \<rparr>)"
  using assms(2)
  by (auto simp: setDesignMetadata_failed [OF assms(1)] getDesignMetadata_eq loadMetadata_snd
        metadata_set_def update_conv' split: option.splits)

lemma and_then_WriteFailure:
  assumes "and_then r g = (h', Thrown WriteFailure)" and "snd r \<noteq> Thrown WriteFailure"
  shows "\<exists>h1. r = (h1, Returned ()) \<and> g h1 = (h', Thrown WriteFailure)"
proof (cases r)
  case (Pair h1 r1)
  with assms show ?thesis by (cases r1) (auto simp: and_then_def)
qed

lemma ensure_archive_dir_store:
  "snd (ensure_archive_dir env h) \<noteq> Thrown WriteFailure \<and>
   cache (fst (ensure_archive_dir env h)) = cache h \<and>
   metadataFile (fst (ensure_archive_dir env h)) = metadataFile h"
  by (simp add: ensure_archive_dir_def split: option.splits)

lemma fs_copy_store:
  "snd (fs_copy env f h) \<noteq> Thrown WriteFailure \<and>
   cache (fst (fs_copy env f h)) = cache h \<and>
   metadataFile (fst (fs_copy env f h)) = metadataFile h"
  by (simp add: fs_copy_def split: option.splits)

lemma fs_delete_store:
  "snd (fs_delete env f h) \<noteq> Thrown WriteFailure \<and>
   cache (fst (fs_delete env f h)) = cache h \<and>
   metadataFile (fst (fs_delete env f h)) = metadataFile h"
  by (simp add: fs_delete_def)

lemma fs_copy_back_store:
  "snd (fs_copy_back env f h) \<noteq> Thrown WriteFailure \<and>
   cache (fst (fs_copy_back env f h)) = cache h \<and>
   metadataFile (fst (fs_copy_back env f h)) = metadataFile h"
  by (simp add: fs_copy_back_def split: option.splits)

lemma fs_delete_archived_store:
  "snd (fs_delete_archived env f h) \<noteq> Thrown WriteFailure \<and>
   cache (fst (fs_delete_archived env f h)) = cache h \<and>
   metadataFile (fst (fs_delete_archived env f h)) = metadataFile h"
  by (simp add: fs_delete_archived_def split: option.splits)

lemma archiveDesign_failed_read:
  assumes w: "write_fails env" and c: "cache h \<noteq> None \<or> metadataFile h \<noteq> None"
    and t: "snd (archiveDesign env f h) = Thrown WriteFailure"
  shows "\<exists>m. snd (getDesignMetadata env f (fst (archiveDesign env f h))) = Some m \<and>
             md_status m = Archived"
proof -
  from t obtain h' where run: "archiveDesign env f h = (h', Thrown WriteFailure)"
    by (cases "archiveDesign env f h") simp
  from and_then_WriteFailure [OF run [unfolded archiveDesign_def]] ensure_archive_dir_store
  obtain h0 where h0: "ensure_archive_dir env h = (h0, Returned ())"
    and r0: "and_then (fs_copy env f h0) (\<lambda>h1. and_then (fs_delete env f h1)
               (\<lambda>h2. updateStatus env f Archived h2)) = (h', Thrown WriteFailure)" by blast
  from and_then_WriteFailure [OF r0] fs_copy_store
  obtain h1 where h1: "fs_copy env f h0 = (h1, Returned ())"
    and r1: "and_then (fs_delete env f h1) (\<lambda>h2. updateStatus env f Archived h2) =
               (h', Thrown WriteFailure)" by blast
  from and_then_WriteFailure [OF r1] fs_delete_store
  obtain h2 where h2: "fs_delete env f h1 = (h2, Returned ())"
    and r2: "updateStatus env f Archived h2 = (h', Thrown WriteFailure)" by blast
  have "cache h0 = cache h \<and> metadataFile h0 = metadataFile h"
    using ensure_archive_dir_store [of env h] h0 by simp
  moreover have "cache h1 = cache h0 \<and> metadataFile h1 = metadataFile h0"
    using fs_copy_store [of env f h0] h1 by simp
  moreover have "cache h2 = cache h1 \<and> metadataFile h2 = metadataFile h1"
    using fs_delete_store [of env f h1] h2 by simp
  ultimately have "cache h2 \<noteq> None \<or> metadataFile h2 \<noteq> None" using c by simp
  from updateStatus_failed_read [OF w this, of f Archived] r2 show ?thesis
    by (simp add: run)
qed

lemma restoreFromArchive_failed_read:
  assumes w: "write_fails env" and c: "cache h \<noteq> None \<or> metadataFile h \<noteq> None"
    and t: "snd (restoreFromArchive env f h) = Thrown WriteFailure"
  shows "\<exists>m. snd (getDesignMetadata env f (fst (restoreFromArchive env f h))) = Some m \<and>
             md_status m = Draft"
proof -
  from t obtain h' where run: "restoreFromArchive env f h = (h', Thrown WriteFailure)"
    by (cases "restoreFromArchive env f h") simp
  from and_then_WriteFailure [OF run [unfolded restoreFromArchive_def]] fs_copy_back_store
  obtain h1 where h1: "fs_copy_back env f h = (h1, Returned ())"
    and r1: "and_then (fs_delete_archived env f h1) (\<lambda>h2. updateStatus env f Draft h2) =
               (h', Thrown WriteFailure)" by blast
  from and_then_WriteFailure [OF r1] fs_delete_archived_store
  obtain h2 where h2: "fs_delete_archived env f h1 = (h2, Returned ())"
    and r2: "updateStatus env f Draft h2 = (h', Thrown WriteFailure)" by blast
  have "cache h1 = cache h \<and> metadataFile h1 = metadataFile h"
    using fs_copy_back_store [of env f h] h1 by simp
  moreover have "cache h2 = cache h1 \<and> metadataFile h2 = metadataFile h1"
    using fs_delete_archived_store [of env f h1] h2 by simp
  ultimately have "cache h2 \<noteq> None \<or> metadataFile h2 \<noteq> None" using c by simp
  from updateStatus_failed_read [OF w this, of f Draft] r2 show ?thesis
    by (simp add: run)
qed

lemma deleteDesign_failed_read:
  assumes w: "write_fails env" and c: "cache h \<noteq> None \<or> metadataFile h \<noteq> None"
    and t: "snd (deleteDesign env f b h) = Thrown WriteFailure"
  shows "snd (getDesignMetadata env f (fst (deleteDesign env f b h))) = None"
proof -
  let ?d = "if b then fs_delete_archived env f h else fs_delete env f h"
  from t obtain h' where run: "deleteDesign env f b h = (h', Thrown WriteFailure)"
    by (cases "deleteDesign env f b h") simp
  have nd: "snd ?d \<noteq> Thrown WriteFailure"
    using fs_delete_archived_store [of env f h] fs_delete_store [of env f h] by simp
  from and_then_WriteFailure [OF run [unfolded deleteDesign_def] nd]
  obtain h1 where h1: "?d = (h1, Returned ())"
    and r1: "saveMetadata env
               (in_place (\<lambda>store. store\<lparr> designs := AList.delete f (designs store) \<rparr>)
                  (loadMetadata env h1)) = (h', Thrown WriteFailure)" by blast
  have "cache h1 = cache h \<and> metadataFile h1 = metadataFile h"
    using fs_delete_archived_store [of env f h] fs_delete_store [of env f h] h1
    by (cases b) simp_all
  with c have c1: "cache h1 \<noteq> None \<or> metadataFile h1 \<noteq> None" by simp
  have "h' = fst (saveMetadata env
               (in_place (\<lambda>store. store\<lparr> designs := AList.delete f (designs store) \<rparr>)
                  (loadMetadata env h1)))" using r1 by simp
  then show ?thesis
    by (simp add: run getDesignMetadata_eq failed_save_reads [OF w c1] delete_conv')
qed

lemma add_missing_result:
  assumes "add_missing env fs hs n = (hs', n')" and "cache (fst hs) = Some (snd hs)"
  shows "cache (fst hs') = Some (snd hs') \<and>
         (\<forall>g. map_of (designs (snd hs)) g \<noteq> None \<longrightarrow> map_of (designs (snd hs')) g \<noteq> None) \<and>
         (\<forall>g \<in> set fs. map_of (designs (snd hs')) g \<noteq> None)"
  using assms
proof (induction fs arbitrary: hs n)
  case Nil
  then show ?case by simp
next
  case (Cons f fs)
  show ?case
  proof (cases "map_of (designs (snd hs)) f = None")
    case False
    with Cons.prems have "add_missing env fs hs n = (hs', n')" by simp
    from Cons.IH [OF this Cons.prems(2)] False show ?thesis by auto
  next
    case True
    let ?hs1 = "in_place
                (\<lambda>store. store\<lparr> designs :=
                   AList.update f (createDefaultMetadata env f) (designs store) \<rparr>) hs"
    from True Cons.prems have run: "add_missing env fs ?hs1 (n + 1) = (hs', n')" by simp
    have c1: "cache (fst ?hs1) = Some (snd ?hs1)"
      using Cons.prems(2) by (simp add: in_place_pair)
    have d1: "map_of (designs (snd ?hs1)) g \<noteq> None"
      if "g = f \<or> map_of (designs (snd hs)) g \<noteq> None" for g
      using that by (auto simp: in_place_pair update_conv')
    from Cons.IH [OF run c1] d1 show ?thesis by auto
  qed
qed

lemma syncWithFileSystem_failed_read:
  assumes w: "write_fails env" and l: "\<not> listing_fails env"
    and c: "cache h \<noteq> None \<or> metadataFile h \<noteq> None"
    and f: "(f, e) \<in> set (design_iterations h)" "suffix ''.html'' f \<or> suffix ''.svg'' f"
  shows "\<exists>m. snd (getDesignMetadata env f (fst (syncWithFileSystem env h))) = Some m"
proof -
  let ?fs = "map fst (filter (\<lambda>(f, entry). suffix ''.html'' f \<or> suffix ''.svg'' f)
                        (design_iterations h))"
  obtain hs' n' where run: "add_missing env ?fs (loadMetadata env h) 0 = (hs', n')"
    by (cases "add_missing env ?fs (loadMetadata env h) 0")
  have c0: "cache (fst (loadMetadata env h)) = Some (snd (loadMetadata env h))"
    using c by (auto simp: loadMetadata_def split: option.splits)
  from f have mem: "f \<in> set ?fs" by force
  from add_missing_result [OF run c0] mem
  have c': "cache (fst hs') = Some (snd hs')" and d': "map_of (designs (snd hs')) f \<noteq> None"
    by auto
  obtain h1 st1 where hs': "hs' = (h1, st1)" by (cases hs')
  have "fst (syncWithFileSystem env h) =
          (if n' > 0 then fst (saveMetadata env hs') else fst hs')"
    using l by (simp add: syncWithFileSystem_def run split: prod.splits result.splits)
  also have "\<dots> = (if n' > 0 then h1\<lparr> cache := Some (st1\<lparr> lastUpdated := Date (now env) \<rparr>) \<rparr>
                     else h1)"
    using c' by (simp add: hs' saveMetadata_failed [OF w])
  finally have "snd (loadMetadata env (fst (syncWithFileSystem env h))) =
          (if n' > 0 then st1\<lparr> lastUpdated := Date (now env) \<rparr> else st1)"
    using c' by (simp add: loadMetadata_snd hs')
  with d' show ?thesis by (auto simp: getDesignMetadata_eq hs')
qed

lemma uncached_stays_unset:
  assumes "write_fails env" and "cache h = None" and "metadataFile h = None"
  shows "cache (fst (setDesignMetadata env f m h)) = None"
    and "cache (fst (updateStatus env f s h)) = None"
    and "cache (fst (updateNotes env f text h)) = None"
    and "cache (fst (addTag env f t h)) = None"
    and "cache (fst (removeTag env f t h)) = None"
  using assms(2,3)
  by (simp_all add: setDesignMetadata_def updateStatus_def updateNotes_def addTag_eq removeTag_eq
        in_place_comp in_place_pair loadMetadata_fst saveMetadata_failed [OF assms(1)])

text \<open>
  C8, as the code has it: when the write of the metadata file fails, \<open>saveMetadata\<close>,
  \<open>setDesignMetadata\<close>, \<open>updateStatus\<close> and \<open>updateNotes\<close> throw the error to their
  caller, and so do \<open>addTag\<close> and \<open>removeTag\<close> whenever they have something to save;
  \<open>archiveDesign\<close>, \<open>restoreFromArchive\<close> and \<open>deleteDesign\<close> throw (this error, or
  the error of an earlier step). The bulk operations do not: \<open>archiveOldDesigns\<close> and
  \<open>deleteAllArchived\<close> log the error of every item and return the count 0, and
  \<open>syncWithFileSystem\<close> logs it and returns. The cache is not rolled back: when the
  table was cached, or was loaded from a valid file by the operation, a read through the
  cache gives the record as the failed operation wrote it (deleted, for \<open>deleteDesign\<close>;
  added, for \<open>syncWithFileSystem\<close>); when the operation started from a fresh empty
  table (no cache, no valid file), the cache stays unset.
\<close>

theorem failed_save_thrown_or_logged_cache_keeps_update:
  assumes "write_fails env"
  shows "snd (saveMetadata env (h, st)) = Thrown WriteFailure \<and>
         snd (setDesignMetadata env f m h) = Thrown WriteFailure \<and>
         snd (updateStatus env f s h) = Thrown WriteFailure \<and>
         snd (updateNotes env f text h) = Thrown WriteFailure \<and>
         snd (addTag env f t h) =
           (if has_tag (snd (loadMetadata env h)) f t then Returned ()
            else Thrown WriteFailure) \<and>
         snd (removeTag env f t h) =
           (if has_tags (snd (loadMetadata env h)) f then Thrown WriteFailure
            else Returned ()) \<and>
         (\<exists>e. snd (archiveDesign env f h) = Thrown e) \<and>
         (\<exists>e. snd (restoreFromArchive env f h) = Thrown e) \<and>
         (\<exists>e. snd (deleteDesign env f b h) = Thrown e) \<and>
         snd (archiveOldDesigns env d h) = 0 \<and>
         snd (deleteAllArchived env h) = 0 \<and>
         snd (syncWithFileSystem env h) = Returned () \<and>
         (cache h \<noteq> None \<or> metadataFile h \<noteq> None \<longrightarrow>
            snd (getDesignMetadata env f (fst (setDesignMetadata env f m h))) =
              Some (m\<lparr> updatedAt := Date (now env) \<rparr>) \<and>
            (\<exists>m'. snd (getDesignMetadata env f (fst (updateStatus env f s h))) = Some m' \<and>
                  md_status m' = s) \<and>
            (\<exists>m'. snd (getDesignMetadata env f (fst (updateNotes env f text h))) = Some m' \<and>
                  md_notes m' = Some text) \<and>
            (\<not> has_tag (snd (loadMetadata env h)) f t \<longrightarrow>
               (\<exists>m' ts. snd (getDesignMetadata env f (fst (addTag env f t h))) = Some m' \<and>
                        tags m' = Some ts \<and> t \<in> set ts)) \<and>
            (has_tags (snd (loadMetadata env h)) f \<longrightarrow>
               (\<exists>m' ts. snd (getDesignMetadata env f (fst (removeTag env f t h))) = Some m' \<and>
                        tags m' = Some ts \<and> t \<notin> set ts)) \<and>
            (snd (archiveDesign env f h) = Thrown WriteFailure \<longrightarrow>
               (\<exists>m'. snd (getDesignMetadata env f (fst (archiveDesign env f h))) = Some m' \<and>
                     md_status m' = Archived)) \<and>
            (snd (restoreFromArchive env f h) = Thrown WriteFailure \<longrightarrow>
               (\<exists>m'. snd (getDesignMetadata env f (fst (restoreFromArchive env f h))) = Some m' \<and>
                     md_status m' = Draft)) \<and>
            (snd (deleteDesign env f b h) = Thrown WriteFailure \<longrightarrow>
               snd (getDesignMetadata env f (fst (deleteDesign env f b h))) = None) \<and>
            (\<not> listing_fails env \<longrightarrow>
               (\<forall>(g, e) \<in> set (design_iterations h).
                  suffix ''.html'' g \<or> suffix ''.svg'' g \<longrightarrow>
                  (\<exists>m'. snd (getDesignMetadata env g (fst (syncWithFileSystem env h))) =
                          Some m')))) \<and>
         (cache h = None \<and> metadataFile h = None \<longrightarrow>
            cache (fst (setDesignMetadata env f m h)) = None \<and>
            cache (fst (updateStatus env f s h)) = None \<and>
            cache (fst (updateNotes env f text h)) = None \<and>
            cache (fst (addTag env f t h)) = None \<and>
            cache (fst (removeTag env f t h)) = None)"
proof -
  note w = assms
  have thrown:
    "snd (saveMetadata env (h, st)) = Thrown WriteFailure"
    "snd (setDesignMetadata env f m h) = Thrown WriteFailure"
    "snd (updateStatus env f s h) = Thrown WriteFailure"
    "snd (updateNotes env f text h) = Thrown WriteFailure"
    "snd (addTag env f t h) =
       (if has_tag (snd (loadMetadata env h)) f t then Returned () else Thrown WriteFailure)"
    "snd (removeTag env f t h) =
       (if has_tags (snd (loadMetadata env h)) f then Thrown WriteFailure else Returned ())"
    by (rule saveMetadata_thrown [OF w] setDesignMetadata_thrown [OF w]
          updateStatus_thrown [OF w] updateNotes_thrown [OF w] addTag_thrown [OF w]
          removeTag_thrown [OF w])+
  have nested:
    "\<exists>e. snd (archiveDesign env f h) = Thrown e"
    "\<exists>e. snd (restoreFromArchive env f h) = Thrown e"
    "\<exists>e. snd (deleteDesign env f b h) = Thrown e"
    by (rule archiveDesign_thrown [OF w] restoreFromArchive_thrown [OF w]
          deleteDesign_thrown [OF w])+
  have bulk:
    "snd (archiveOldDesigns env d h) = 0"
    "snd (deleteAllArchived env h) = 0"
    "snd (syncWithFileSystem env h) = Returned ()"
    by (rule archiveOldDesigns_none [OF w] deleteAllArchived_none [OF w]
          syncWithFileSystem_returns)+
  have cached: "snd (getDesignMetadata env f (fst (setDesignMetadata env f m h))) =
              Some (m\<lparr> updatedAt := Date (now env) \<rparr>) \<and>
            (\<exists>m'. snd (getDesignMetadata env f (fst (updateStatus env f s h))) = Some m' \<and>
                  md_status m' = s) \<and>
            (\<exists>m'. snd (getDesignMetadata env f (fst (updateNotes env f text h))) = Some m' \<and>
                  md_notes m' = Some text) \<and>
            (\<not> has_tag (snd (loadMetadata env h)) f t \<longrightarrow>
               (\<exists>m' ts. snd (getDesignMetadata env f (fst (addTag env f t h))) = Some m' \<and>
                        tags m' = Some ts \<and> t \<in> set ts)) \<and>
            (has_tags (snd (loadMetadata env h)) f \<longrightarrow>
               (\<exists>m' ts. snd (getDesignMetadata env f (fst (removeTag env f t h))) = Some m' \<and>
                        tags m' = Some ts \<and> t \<notin> set ts)) \<and>
            (snd (archiveDesign env f h) = Thrown WriteFailure \<longrightarrow>
               (\<exists>m'. snd (getDesignMetadata env f (fst (archiveDesign env f h))) = Some m' \<and>
                     md_status m' = Archived)) \<and>
            (snd (restoreFromArchive env f h) = Thrown WriteFailure \<longrightarrow>
               (\<exists>m'. snd (getDesignMetadata env f (fst (restoreFromArchive env f h))) = Some m' \<and>
                     md_status m' = Draft)) \<and>
            (snd (deleteDesign env f b h) = Thrown WriteFailure \<longrightarrow>
               snd (getDesignMetadata env f (fst (deleteDesign env f b h))) = None) \<and>
            (\<not> listing_fails env \<longrightarrow>
               (\<forall>(g, e) \<in> set (design_iterations h).
                  suffix ''.html'' g \<or> suffix ''.svg'' g \<longrightarrow>
                  (\<exists>m'. snd (getDesignMetadata env g (fst (syncWithFileSystem env h))) =
                          Some m')))"
    if c: "cache h \<noteq> None \<or> metadataFile h \<noteq> None"
    using setDesignMetadata_failed_read [OF w c] updateStatus_failed_read [OF w c]
      updateNotes_failed_read [OF w c] addTag_failed_read [OF w c]
      removeTag_failed_read [OF w c] archiveDesign_failed_read [OF w c]
      restoreFromArchive_failed_read [OF w c] deleteDesign_failed_read [OF w c]
      syncWithFileSystem_failed_read [OF w _ c]
    by blast
  have uncached: "cache (fst (setDesignMetadata env f m h)) = None \<and>
            cache (fst (updateStatus env f s h)) = None \<and>
            cache (fst (updateNotes env f text h)) = None \<and>
            cache (fst (addTag env f t h)) = None \<and>
            cache (fst (removeTag env f t h)) = None"
    if "cache h = None \<and> metadataFile h = None"
    using that uncached_stays_unset [OF w, of h] by blast
  from thrown nested bulk cached uncached show ?thesis by blast
qed


text \<open>The definitions that a run of the other manager operations unfolds.\<close>

lemmas manager_eval =
  updateNotes_def addTag_def removeTag_def has_tag_def has_tags_def ensure_record_def
  write_notes_def ensure_tags_def push_tag_def filter_tag_def deleteDesign_def
  restoreFromArchive_def fs_copy_back_def fs_delete_archived_def deleteAllArchived_def
  syncWithFileSystem_def archiveOldDesigns_def

theorem failed_save_thrown_or_logged_cache_keeps_update_witness:
  "write_fails ((quiet_env 1000)\<lparr> write_fails := True \<rparr>) \<and>
   metadataFile example_host \<noteq> None \<and>
   snd (updateStatus ((quiet_env 1000)\<lparr> write_fails := True \<rparr>) ''a.html'' Approved example_host)
     = Thrown WriteFailure \<and>
   (\<exists>m. snd (getDesignMetadata ((quiet_env 1000)\<lparr> write_fails := True \<rparr>) ''a.html''
            (fst (updateStatus ((quiet_env 1000)\<lparr> write_fails := True \<rparr>) ''a.html''
               Approved example_host))) = Some m \<and> md_status m = Approved) \<and>
   \<not> has_tag (snd (loadMetadata ((quiet_env 1000)\<lparr> write_fails := True \<rparr>) example_host))
       ''a.html'' ''hero'' \<and>
   snd (addTag ((quiet_env 1000)\<lparr> write_fails := True \<rparr>) ''a.html'' ''hero'' example_host)
     = Thrown WriteFailure \<and>
   (\<exists>m ts. snd (getDesignMetadata ((quiet_env 1000)\<lparr> write_fails := True \<rparr>) ''a.html''
               (fst (addTag ((quiet_env 1000)\<lparr> write_fails := True \<rparr>) ''a.html'' ''hero''
                  example_host))) = Some m \<and> tags m = Some ts \<and> ''hero'' \<in> set ts) \<and>
   snd (archiveDesign ((quiet_env 1000)\<lparr> write_fails := True \<rparr>) ''a.html'' example_host)
     = Thrown WriteFailure \<and>
   (\<exists>m. snd (getDesignMetadata ((quiet_env 1000)\<lparr> write_fails := True \<rparr>) ''a.html''
            (fst (archiveDesign ((quiet_env 1000)\<lparr> write_fails := True \<rparr>) ''a.html''
               example_host))) = Some m \<and> md_status m = Archived) \<and>
   snd (deleteDesign ((quiet_env 1000)\<lparr> write_fails := True \<rparr>) ''a.html'' False example_host)
     = Thrown WriteFailure \<and>
   snd (getDesignMetadata ((quiet_env 1000)\<lparr> write_fails := True \<rparr>) ''a.html''
          (fst (deleteDesign ((quiet_env 1000)\<lparr> write_fails := True \<rparr>) ''a.html'' False
             example_host))) = None \<and>
   snd (archiveOldDesigns ((quiet_env 1000)\<lparr> write_fails := True \<rparr>) 30 example_host) = 0 \<and>
   snd (deleteAllArchived ((quiet_env 1000)\<lparr> write_fails := True \<rparr>) example_host) = 0 \<and>
   snd (syncWithFileSystem ((quiet_env 1000)\<lparr> write_fails := True \<rparr>) example_host) =
     Returned ()"
proof -
  let ?F = "(quiet_env 1000)\<lparr> write_fails := True \<rparr>"
  have w: "write_fails ?F" by simp
  have c: "metadataFile example_host \<noteq> None" by (simp add: example_host_def)
  have t: "\<not> has_tag (snd (loadMetadata ?F example_host)) ''a.html'' ''hero''"
    by (simp add: host_eval manager_eval example_host_def)
  have a: "snd (archiveDesign ?F ''a.html'' example_host) = Thrown WriteFailure"
    by (simp add: host_eval example_host_def)
  have d: "snd (deleteDesign ?F ''a.html'' False example_host) = Thrown WriteFailure"
    by (simp add: host_eval manager_eval example_host_def)
  from failed_save_thrown_or_logged_cache_keeps_update
    [OF w, of example_host "the (metadataFile example_host)" "''a.html''"
       "createDefaultMetadata (quiet_env 1000) ''a.html''" Approved "''note''" "''hero''"
       False 30] w c t a d
  show ?thesis by simp
qed

text \<open>
  C8 as the claim states it fails, in both halves. The cache: \<open>a.html\<close> is a draft;
  \<open>updateStatus\<close> to \<open>approved\<close> throws because the write fails; the next read returns
  \<open>approved\<close>, not the record as it was before the failed operation. The error:
  \<open>syncWithFileSystem\<close> has a record to add for \<open>b_mobile.html\<close>, its write fails, and
  it returns normally, with the unsaved record in the cache; \<open>archiveOldDesigns\<close> moves
  \<open>a.html\<close>, the write of its status fails, and it returns the count 0, with the
  record \<open>archived\<close> in the cache.
\<close>

theorem failed_save_is_logged_by_bulk_and_stays_in_cache:
  "map_option md_status (snd (getDesignMetadata (quiet_env 1000) ''a.html'' example_host)) =
     Some Draft \<and>
   snd (updateStatus ((quiet_env 1000)\<lparr> write_fails := True \<rparr>) ''a.html'' Approved example_host)
     = Thrown WriteFailure \<and>
   map_option md_status
     (snd (getDesignMetadata (quiet_env 1000) ''a.html''
        (fst (updateStatus ((quiet_env 1000)\<lparr> write_fails := True \<rparr>) ''a.html'' Approved
           example_host)))) = Some Approved \<and>
   snd (getDesignMetadata (quiet_env 1000) ''b_mobile.html'' example_host) = None \<and>
   journal (fst (syncWithFileSystem (quiet_env 1000) example_host)) = [FsWriteMetadata] \<and>
   snd (syncWithFileSystem ((quiet_env 1000)\<lparr> write_fails := True \<rparr>) example_host) =
     Returned () \<and>
   journal (fst (syncWithFileSystem ((quiet_env 1000)\<lparr> write_fails := True \<rparr>) example_host))
     = [] \<and>
   map_option md_status
     (snd (getDesignMetadata (quiet_env 1000) ''b_mobile.html''
        (fst (syncWithFileSystem ((quiet_env 1000)\<lparr> write_fails := True \<rparr>) example_host))))
     = Some Draft \<and>
   snd (archiveOldDesigns (quiet_env 10000000000) 30 aging_host) = 1 \<and>
   snd (archiveOldDesigns ((quiet_env 10000000000)\<lparr> write_fails := True \<rparr>) 30 aging_host) = 0 \<and>
   journal (fst (archiveOldDesigns ((quiet_env 10000000000)\<lparr> write_fails := True \<rparr>) 30
                   aging_host)) = [FsCreateDirectory, FsCopy ''a.html'', FsDelete ''a.html''] \<and>
   map_option md_status
     (snd (getDesignMetadata (quiet_env 10000000000) ''a.html''
        (fst (archiveOldDesigns ((quiet_env 10000000000)\<lparr> write_fails := True \<rparr>) 30
                aging_host)))) = Some Archived"
  by (simp add: host_eval manager_eval example_host_def aging_host_def suffix_to_prefix)

subsection \<open>The bulk archive\<close>

lemma keeps_refl [simp]: "keeps env f h h"
  by (simp add: keeps_def)

lemma keeps_trans: "keeps env f h h1 \<Longrightarrow> keeps env f h1 h2 \<Longrightarrow> keeps env f h h2"
  by (simp add: keeps_def)

lemma and_then_keeps:
  assumes "keeps env f h (fst r)" and "\<And>h1. keeps env f h h1 \<Longrightarrow> keeps env f h (fst (k h1))"
  shows "keeps env f h (fst (and_then r k))"
  using assms by (cases r) (auto simp: and_then_def split: result.splits)

lemma keepsI:
  assumes "map_of (design_iterations h1) f = map_of (design_iterations h) f"
    and "in_archive h1 f = in_archive h f"
    and "cache h1 = cache h" and "metadataFile h1 = metadataFile h"
  shows "keeps env f h h1"
proof -
  have "snd (loadMetadata env h1) = snd (loadMetadata env h)"
    using assms(3,4) by (rule loadMetadata_snd_cong)
  then have "snd (getDesignMetadata env f h1) = snd (getDesignMetadata env f h)"
    by (simp add: getDesignMetadata_eq)
  with assms(1,2) show ?thesis by (simp add: keeps_def)
qed

lemma ensure_archive_dir_keeps: "keeps env f h (fst (ensure_archive_dir env h))"
  by (rule keepsI) (simp_all add: ensure_archive_dir_def in_archive_def split: option.splits)

lemma fs_copy_keeps: "f \<noteq> g \<Longrightarrow> keeps env f h (fst (fs_copy env g h))"
  by (rule keepsI)
     (simp_all add: fs_copy_def in_archive_def update_conv' split: option.splits)

lemma fs_delete_keeps: "f \<noteq> g \<Longrightarrow> keeps env f h (fst (fs_delete env g h))"
  by (rule keepsI) (simp_all add: fs_delete_def in_archive_def delete_conv')

lemma saveMetadata_ok:
  assumes "\<not> write_fails env"
  shows "saveMetadata env (h, st) =
     (h\<lparr> metadataFile := Some (written_store (st\<lparr> lastUpdated := Date (now env) \<rparr>)),
         cache := Some (st\<lparr> lastUpdated := Date (now env) \<rparr>),
         journal := journal h @ [FsWriteMetadata] \<rparr>, Returned ())"
  using assms by (simp add: saveMetadata_def in_place_pair split: option.splits)

lemma updateStatus_ok:
  assumes "\<not> write_fails env"
  shows "updateStatus env f s h =
     (h\<lparr> metadataFile :=
           Some (written_store ((status_written env f s (snd (loadMetadata env h)))
                   \<lparr> lastUpdated := Date (now env) \<rparr>)),
         cache := Some ((status_written env f s (snd (loadMetadata env h)))
                   \<lparr> lastUpdated := Date (now env) \<rparr>),
         journal := journal h @ [FsWriteMetadata] \<rparr>, Returned ())"
  by (simp add: updateStatus_eq saveMetadata_ok [OF assms] loadMetadata_fst)

lemma updateStatus_files:
  "design_iterations (fst (updateStatus env g s h)) = design_iterations h \<and>
   design_archive (fst (updateStatus env g s h)) = design_archive h"
  by (cases "write_fails env") (simp_all add: updateStatus_failed updateStatus_ok)

lemma updateStatus_store:
  "snd (loadMetadata env (fst (updateStatus env g s h))) = snd (loadMetadata env h) \<or>
   snd (loadMetadata env (fst (updateStatus env g s h))) =
     (status_written env g s (snd (loadMetadata env h)))\<lparr> lastUpdated := Date (now env) \<rparr>"
proof (cases "write_fails env")
  case True
  show ?thesis
    by (simp add: updateStatus_failed [OF True] loadMetadata_snd split: option.splits)
next
  case False
  show ?thesis
    by (simp add: updateStatus_ok [OF False] loadMetadata_snd)
qed

lemma updateStatus_keeps:
  assumes "f \<noteq> g"
  shows "keeps env f h (fst (updateStatus env g s h))"
proof -
  have "map_of (designs (snd (loadMetadata env (fst (updateStatus env g s h))))) f =
        map_of (designs (snd (loadMetadata env h))) f"
    using updateStatus_store [of env g s h] assms
    by (auto simp: status_written_other)
  then show ?thesis
    by (simp add: keeps_def getDesignMetadata_eq updateStatus_files in_archive_def)
qed

lemma archiveDesign_keeps:
  assumes "f \<noteq> g"
  shows "keeps env f h (fst (archiveDesign env g h))"
  unfolding archiveDesign_def
  by (intro and_then_keeps ensure_archive_dir_keeps)
     (blast intro: keeps_trans fs_copy_keeps [OF assms] fs_delete_keeps [OF assms]
        updateStatus_keeps [OF assms])+

lemma archiveDesign_journal_copies:
  "\<exists>pre. journal (fst (archiveDesign env g h)) = journal h @ pre \<and>
         (\<forall>f. FsCopy f \<in> set pre \<longrightarrow> f = g)"
proof -
  from archiveDesign_journal_prefix [of env g h] obtain pre where
    j: "journal (fst (archiveDesign env g h)) = journal h @ pre"
    and p: "prefix pre ((if design_archive h = None then [FsCreateDirectory] else []) @
                        [FsCopy g, FsDelete g, FsWriteMetadata])" by blast
  from p have "set pre \<subseteq> set ((if design_archive h = None then [FsCreateDirectory] else []) @
                        [FsCopy g, FsDelete g, FsWriteMetadata])"
    by (rule set_mono_prefix)
  then have "\<forall>f. FsCopy f \<in> set pre \<longrightarrow> f = g" by (auto split: if_splits)
  with j show ?thesis by blast
qed

lemma archiveDesign_succeeds:
  assumes "map_of (design_iterations h) g = Some e"
    and "\<not> copy_fails env g" and "\<not> delete_fails env g"
    and "\<not> mkdir_fails env" and "\<not> write_fails env"
  shows "snd (archiveDesign env g h) = Returned ()"
  using assms
  by (simp add: archiveDesign_def and_then_def ensure_archive_dir_def fs_copy_def
        fs_delete_def updateStatus_ok split: option.splits)

lemma archiveDesign_missing:
  assumes "map_of (design_iterations h) g = None"
  shows "\<exists>e. snd (archiveDesign env g h) = Thrown e"
  using assms
  by (simp add: archiveDesign_def and_then_def ensure_archive_dir_def fs_copy_def
        split: option.splits)

lemma archiveDesign_archived:
  assumes "archiveDesign env g h = (h', Returned ())"
    and "map_of (design_iterations h) g = Some e"
  shows "map_of (design_iterations h') g = None \<and> in_archive h' g = Some e \<and>
         (\<exists>m. snd (getDesignMetadata env g h') = Some m \<and> md_status m = Archived)"
proof -
  from archiveDesign_Returned [OF assms(1)] assms(2)
  have iter: "design_iterations h' = AList.delete g (design_iterations h)"
    and arch: "design_archive h' =
             Some (AList.update g e (case design_archive h of None \<Rightarrow> [] | Some a \<Rightarrow> a))"
    and c: "cache h' = Some ((status_written env g Archived (snd (loadMetadata env h)))
                     \<lparr> lastUpdated := Date (now env) \<rparr>)"
    by auto
  from status_written_entry [of env g Archived "snd (loadMetadata env h)"]
  obtain m where m: "map_of (designs (status_written env g Archived (snd (loadMetadata env h)))) g
        = Some m" "md_status m = Archived" by blast
  have "snd (loadMetadata env h') = (status_written env g Archived (snd (loadMetadata env h)))
                     \<lparr> lastUpdated := Date (now env) \<rparr>"
    by (simp add: loadMetadata_def c)
  then have "snd (getDesignMetadata env g h') = Some m"
    by (simp add: getDesignMetadata_eq m)
  with m(2) iter arch show ?thesis
    by (simp add: delete_conv' in_archive_def update_conv')
qed

lemma archive_each_journal:
  "\<exists>pre. journal (fst (archive_each env c entries h n)) = journal h @ pre \<and>
         (\<forall>f. FsCopy f \<in> set pre \<longrightarrow> (\<exists>m. (f, m) \<in> set entries \<and> old_unapproved c m))"
proof (induction entries arbitrary: h n)
  case Nil
  show ?case by simp
next
  case (Cons gm rest)
  obtain g m where gm: "gm = (g, m)" by (cases gm)
  show ?case
  proof (cases "old_unapproved c m")
    case False
    from Cons.IH [of h n] obtain pre where
      "journal (fst (archive_each env c rest h n)) = journal h @ pre"
      "\<forall>f. FsCopy f \<in> set pre \<longrightarrow> (\<exists>m. (f, m) \<in> set rest \<and> old_unapproved c m)" by blast
    with False show ?thesis
      by (auto simp: gm old_unapproved_def)
  next
    case True
    let ?h1 = "fst (archiveDesign env g h)"
    from archiveDesign_journal_copies [of env g h] obtain pre1 where
      p1: "journal ?h1 = journal h @ pre1" "\<forall>f. FsCopy f \<in> set pre1 \<longrightarrow> f = g" by blast
    have "\<exists>n1. archive_each env c (gm # rest) h n = archive_each env c rest ?h1 n1"
      using True
      by (cases "archiveDesign env g h")
         (auto simp: gm old_unapproved_def split: result.splits)
    then obtain n1 where
      step: "archive_each env c (gm # rest) h n = archive_each env c rest ?h1 n1" by blast
    from Cons.IH [of ?h1 n1] obtain pre2 where
      p2: "journal (fst (archive_each env c rest ?h1 n1)) = journal ?h1 @ pre2"
      "\<forall>f. FsCopy f \<in> set pre2 \<longrightarrow> (\<exists>m. (f, m) \<in> set rest \<and> old_unapproved c m)" by blast
    have "journal (fst (archive_each env c (gm # rest) h n)) = journal h @ (pre1 @ pre2)"
      by (simp add: step p2(1) p1(1))
    moreover have "\<forall>f. FsCopy f \<in> set (pre1 @ pre2) \<longrightarrow>
        (\<exists>m. (f, m) \<in> set (gm # rest) \<and> old_unapproved c m)"
      using p1(2) p2(2) True by (auto simp: gm)
    ultimately show ?thesis by blast
  qed
qed

lemma archive_each_keeps:
  assumes "\<forall>m. (f, m) \<in> set entries \<longrightarrow> \<not> old_unapproved c m"
  shows "keeps env f h (fst (archive_each env c entries h n))"
  using assms
proof (induction entries arbitrary: h n)
  case Nil
  show ?case by simp
next
  case (Cons gm rest)
  obtain g m where gm: "gm = (g, m)" by (cases gm)
  from Cons.prems have rest: "\<forall>m. (f, m) \<in> set rest \<longrightarrow> \<not> old_unapproved c m" by simp
  show ?case
  proof (cases "old_unapproved c m")
    case False
    with Cons.IH [OF rest, of h n] show ?thesis
      by (auto simp: gm old_unapproved_def)
  next
    case True
    with Cons.prems have neq: "f \<noteq> g" by (auto simp: gm)
    let ?h1 = "fst (archiveDesign env g h)"
    have "\<exists>n1. archive_each env c (gm # rest) h n = archive_each env c rest ?h1 n1"
      using True
      by (cases "archiveDesign env g h")
         (auto simp: gm old_unapproved_def split: result.splits)
    then obtain n1 where
      step: "archive_each env c (gm # rest) h n = archive_each env c rest ?h1 n1" by blast
    have "keeps env f h ?h1" by (rule archiveDesign_keeps [OF neq])
    moreover have "keeps env f ?h1 (fst (archive_each env c rest ?h1 n1))"
      by (rule Cons.IH [OF rest])
    ultimately show ?thesis
      unfolding step by (rule keeps_trans)
  qed
qed

lemma keeps_archived_as: "keeps env f h h1 \<Longrightarrow> archived_as env f e h \<Longrightarrow> archived_as env f e h1"
  by (simp add: keeps_def archived_as_def)

lemma archive_each_step:
  "old_unapproved c m \<Longrightarrow>
     archive_each env c ((g, m) # rest) h n =
       archive_each env c rest (fst (archiveDesign env g h))
         (case snd (archiveDesign env g h) of Returned u \<Rightarrow> n + 1 | Thrown e \<Rightarrow> n)"
  by (cases "archiveDesign env g h") (auto simp: old_unapproved_def split: result.splits)

lemma archive_each_skip:
  "\<not> old_unapproved c m \<Longrightarrow>
     archive_each env c ((g, m) # rest) h n = archive_each env c rest h n"
  by (auto simp: old_unapproved_def)

lemma archive_each_archives:
  assumes quiet: "\<forall>g. \<not> copy_fails env g \<and> \<not> delete_fails env g"
      "\<not> mkdir_fails env" "\<not> write_fails env"
    and "distinct (map fst entries)"
    and "(f, m) \<in> set entries" and "old_unapproved c m"
    and "map_of (design_iterations h) f = Some e"
  shows "archived_as env f e (fst (archive_each env c entries h n))"
  using assms(4-7)
proof (induction entries arbitrary: h n)
  case Nil
  then show ?case by simp
next
  case (Cons gm rest)
  obtain g mg where gm: "gm = (g, mg)" by (cases gm)
  from Cons.prems(1) have fresh: "g \<notin> fst ` set rest" and dist: "distinct (map fst rest)"
    by (simp_all add: gm)
  show ?case
  proof (cases "f = g")
    case True
    with Cons.prems(2) fresh have m: "mg = m" by (force simp: gm)
    let ?h1 = "fst (archiveDesign env g h)"
    from quiet Cons.prems(4) True
    have "snd (archiveDesign env g h) = Returned ()"
      by (intro archiveDesign_succeeds [of h g e]) simp_all
    then have run: "archiveDesign env g h = (?h1, Returned ())" by (simp add: prod_eq_iff)
    from archiveDesign_archived [OF run] Cons.prems(4) True
    have "archived_as env f e ?h1" by (simp add: archived_as_def)
    moreover from fresh True have "\<forall>m'. (f, m') \<in> set rest \<longrightarrow> \<not> old_unapproved c m'"
      by (auto simp: image_iff)
    then have "keeps env f ?h1 (fst (archive_each env c rest ?h1 k))" for k
      by (rule archive_each_keeps)
    ultimately have "archived_as env f e (fst (archive_each env c rest ?h1 k))" for k
      by (blast intro: keeps_archived_as)
    with Cons.prems(3) m show ?thesis
      by (simp add: gm archive_each_step del: archive_each.simps)
  next
    case False
    with Cons.prems(2) have mem: "(f, m) \<in> set rest" by (simp add: gm)
    show ?thesis
    proof (cases "old_unapproved c mg")
      case skip: False
      from Cons.IH [OF dist mem Cons.prems(3) Cons.prems(4), of n] skip show ?thesis
        by (simp add: gm archive_each_skip del: archive_each.simps)
    next
      case True
      let ?h1 = "fst (archiveDesign env g h)"
      have "keeps env f h ?h1" by (rule archiveDesign_keeps [OF False])
      with Cons.prems(4) have "map_of (design_iterations ?h1) f = Some e"
        by (simp add: keeps_def)
      from Cons.IH [OF dist mem Cons.prems(3) this] True show ?thesis
        by (simp add: gm archive_each_step del: archive_each.simps)
    qed
  qed
qed

lemma archive_each_count:
  assumes quiet: "\<forall>g. \<not> copy_fails env g \<and> \<not> delete_fails env g"
      "\<not> mkdir_fails env" "\<not> write_fails env"
    and "distinct (map fst entries)"
  shows "snd (archive_each env c entries h n) =
     n + length (filter (\<lambda>gm. old_unapproved c (snd gm) \<and>
                              map_of (design_iterations h) (fst gm) \<noteq> None) entries)"
  using assms(4)
proof (induction entries arbitrary: h n)
  case Nil
  show ?case by simp
next
  case (Cons gm rest)
  obtain g mg where gm: "gm = (g, mg)" by (cases gm)
  from Cons.prems have fresh: "g \<notin> fst ` set rest" and dist: "distinct (map fst rest)"
    by (simp_all add: gm)
  show ?case
  proof (cases "old_unapproved c mg")
    case False
    with Cons.IH [OF dist, of h n] show ?thesis
      by (simp add: gm archive_each_skip del: archive_each.simps)
  next
    case True
    let ?h1 = "fst (archiveDesign env g h)"
    have same: "filter (\<lambda>gm. old_unapproved c (snd gm) \<and>
                              map_of (design_iterations ?h1) (fst gm) \<noteq> None) rest =
                filter (\<lambda>gm. old_unapproved c (snd gm) \<and>
                              map_of (design_iterations h) (fst gm) \<noteq> None) rest"
    proof (rule filter_cong [OF refl])
      fix x assume "x \<in> set rest"
      with fresh have "fst x \<noteq> g" by (auto simp: image_iff)
      then have "keeps env (fst x) h ?h1" by (rule archiveDesign_keeps)
      then show "(old_unapproved c (snd x) \<and> map_of (design_iterations ?h1) (fst x) \<noteq> None) =
                 (old_unapproved c (snd x) \<and> map_of (design_iterations h) (fst x) \<noteq> None)"
        by (simp add: keeps_def)
    qed
    show ?thesis
    proof (cases "map_of (design_iterations h) g")
      case None
      from archiveDesign_missing [OF None] obtain e where
        "snd (archiveDesign env g h) = Thrown e" by blast
      with Cons.IH [OF dist, of ?h1 n] True None same show ?thesis
        by (simp add: gm archive_each_step del: archive_each.simps)
    next
      case (Some e)
      from quiet Some have "snd (archiveDesign env g h) = Returned ()"
        by (intro archiveDesign_succeeds [of h g e]) simp_all
      with Cons.IH [OF dist, of ?h1 "n + 1"] True Some same show ?thesis
        by (simp add: gm archive_each_step del: archive_each.simps)
    qed
  qed
qed

lemma archiveOldDesigns_eq:
  "archiveOldDesigns env daysOld h =
     archive_each env (cutoff_date env daysOld) (designs (snd (loadMetadata env h)))
       (fst (loadMetadata env h)) 0"
  by (simp add: archiveOldDesigns_def split: prod.splits)

lemma loadMetadata_keeps: "keeps env f h (fst (loadMetadata env h))"
proof -
  have "snd (getDesignMetadata env f (fst (loadMetadata env h))) =
        snd (getDesignMetadata env f h)"
    by (simp add: getDesignMetadata_eq loadMetadata_snd_idem)
  then show ?thesis
    by (simp add: keeps_def in_archive_def loadMetadata_fst)
qed

text \<open>
  C9: \<open>archiveOldDesigns\<close> archives the designs whose record has a status that is
  neither \<open>approved\<close> nor \<open>archived\<close> and a \<open>createdAt\<close> strictly before the cutoff
  date, and no other. Whatever fails, every file it copies to the archive has such a
  record; and a file name all of whose records are \<open>approved\<close>, \<open>archived\<close> or not
  older than the cutoff keeps its file in the document directory, its absence from the
  archive and its record. When no file system call fails, every such design whose file
  is in the document directory ends up archived (file moved, status \<open>archived\<close>), and
  the number returned counts them.
\<close>

theorem archiveOldDesigns_archives_old_unapproved:
  "(\<exists>pre. journal (fst (archiveOldDesigns env daysOld h)) = journal h @ pre \<and>
      (\<forall>g. FsCopy g \<in> set pre \<longrightarrow>
         (\<exists>m. (g, m) \<in> set (designs (snd (loadMetadata env h))) \<and>
              md_status m \<noteq> Approved \<and> md_status m \<noteq> Archived \<and>
              date_less (createdAt m) (cutoff_date env daysOld)))) \<and>
   ((\<forall>m. (f, m) \<in> set (designs (snd (loadMetadata env h))) \<longrightarrow>
         md_status m = Approved \<or> md_status m = Archived \<or>
         \<not> date_less (createdAt m) (cutoff_date env daysOld)) \<longrightarrow>
      map_of (design_iterations (fst (archiveOldDesigns env daysOld h))) f =
        map_of (design_iterations h) f \<and>
      in_archive (fst (archiveOldDesigns env daysOld h)) f = in_archive h f \<and>
      snd (getDesignMetadata env f (fst (archiveOldDesigns env daysOld h))) =
        snd (getDesignMetadata env f h)) \<and>
   ((\<forall>g. \<not> copy_fails env g \<and> \<not> delete_fails env g) \<and> \<not> mkdir_fails env \<and>
    \<not> write_fails env \<and> distinct (map fst (designs (snd (loadMetadata env h)))) \<longrightarrow>
      snd (archiveOldDesigns env daysOld h) =
        length (filter (\<lambda>gm. md_status (snd gm) \<noteq> Approved \<and> md_status (snd gm) \<noteq> Archived \<and>
                              date_less (createdAt (snd gm)) (cutoff_date env daysOld) \<and>
                              map_of (design_iterations h) (fst gm) \<noteq> None)
                  (designs (snd (loadMetadata env h)))) \<and>
      ((f, m) \<in> set (designs (snd (loadMetadata env h))) \<and>
       md_status m \<noteq> Approved \<and> md_status m \<noteq> Archived \<and>
       date_less (createdAt m) (cutoff_date env daysOld) \<and>
       map_of (design_iterations h) f = Some e \<longrightarrow>
         map_of (design_iterations (fst (archiveOldDesigns env daysOld h))) f = None \<and>
         in_archive (fst (archiveOldDesigns env daysOld h)) f = Some e \<and>
         (\<exists>m'. snd (getDesignMetadata env f (fst (archiveOldDesigns env daysOld h))) = Some m' \<and>
               md_status m' = Archived)))"
proof (intro conjI impI)
  let ?c = "cutoff_date env daysOld"
  let ?entries = "designs (snd (loadMetadata env h))"
  let ?h1 = "fst (loadMetadata env h)"
  have j1: "journal ?h1 = journal h" by (simp add: loadMetadata_fst)
  from archive_each_journal [of env ?c ?entries ?h1 0] j1
  show "\<exists>pre. journal (fst (archiveOldDesigns env daysOld h)) = journal h @ pre \<and>
      (\<forall>g. FsCopy g \<in> set pre \<longrightarrow>
         (\<exists>m. (g, m) \<in> set ?entries \<and>
              md_status m \<noteq> Approved \<and> md_status m \<noteq> Archived \<and>
              date_less (createdAt m) ?c))"
    by (simp add: archiveOldDesigns_eq old_unapproved_def)
next
  let ?c = "cutoff_date env daysOld"
  let ?entries = "designs (snd (loadMetadata env h))"
  let ?h1 = "fst (loadMetadata env h)"
  assume "\<forall>m. (f, m) \<in> set ?entries \<longrightarrow>
         md_status m = Approved \<or> md_status m = Archived \<or> \<not> date_less (createdAt m) ?c"
  then have "\<forall>m. (f, m) \<in> set ?entries \<longrightarrow> \<not> old_unapproved ?c m"
    by (auto simp: old_unapproved_def)
  then have "keeps env f ?h1 (fst (archive_each env ?c ?entries ?h1 0))"
    by (rule archive_each_keeps)
  with loadMetadata_keeps [of env f h]
  have k: "keeps env f h (fst (archiveOldDesigns env daysOld h))"
    unfolding archiveOldDesigns_eq by (rule keeps_trans)
  from k show "map_of (design_iterations (fst (archiveOldDesigns env daysOld h))) f =
        map_of (design_iterations h) f" by (simp add: keeps_def)
  from k show "in_archive (fst (archiveOldDesigns env daysOld h)) f = in_archive h f"
    by (simp add: keeps_def)
  from k show "snd (getDesignMetadata env f (fst (archiveOldDesigns env daysOld h))) =
        snd (getDesignMetadata env f h)" by (simp add: keeps_def)
next
  let ?c = "cutoff_date env daysOld"
  let ?entries = "designs (snd (loadMetadata env h))"
  let ?h1 = "fst (loadMetadata env h)"
  assume q: "(\<forall>g. \<not> copy_fails env g \<and> \<not> delete_fails env g) \<and> \<not> mkdir_fails env \<and>
    \<not> write_fails env \<and> distinct (map fst ?entries)"
  have it: "design_iterations ?h1 = design_iterations h" by (simp add: loadMetadata_fst)
  from q have "snd (archive_each env ?c ?entries ?h1 0) =
     0 + length (filter (\<lambda>gm. old_unapproved ?c (snd gm) \<and>
                              map_of (design_iterations ?h1) (fst gm) \<noteq> None) ?entries)"
    by (intro archive_each_count) simp_all
  then show "snd (archiveOldDesigns env daysOld h) =
        length (filter (\<lambda>gm. md_status (snd gm) \<noteq> Approved \<and> md_status (snd gm) \<noteq> Archived \<and>
                              date_less (createdAt (snd gm)) ?c \<and>
                              map_of (design_iterations h) (fst gm) \<noteq> None) ?entries)"
    by (simp add: archiveOldDesigns_eq old_unapproved_def it conj_assoc)
next
  let ?c = "cutoff_date env daysOld"
  let ?entries = "designs (snd (loadMetadata env h))"
  let ?h1 = "fst (loadMetadata env h)"
  assume q: "(\<forall>g. \<not> copy_fails env g \<and> \<not> delete_fails env g) \<and> \<not> mkdir_fails env \<and>
    \<not> write_fails env \<and> distinct (map fst ?entries)"
  assume e: "(f, m) \<in> set ?entries \<and>
       md_status m \<noteq> Approved \<and> md_status m \<noteq> Archived \<and>
       date_less (createdAt m) ?c \<and> map_of (design_iterations h) f = Some e"
  have it: "design_iterations ?h1 = design_iterations h" by (simp add: loadMetadata_fst)
  from e have old: "old_unapproved ?c m" by (simp add: old_unapproved_def)
  from q e old it have "archived_as env f e (fst (archive_each env ?c ?entries ?h1 0))"
    by (intro archive_each_archives [of env ?entries f m ?c ?h1 e]) simp_all
  then have a: "archived_as env f e (fst (archiveOldDesigns env daysOld h))"
    by (simp add: archiveOldDesigns_eq)
  from a show "map_of (design_iterations (fst (archiveOldDesigns env daysOld h))) f = None"
    by (simp add: archived_as_def)
  from a show "in_archive (fst (archiveOldDesigns env daysOld h)) f = Some e"
    by (simp add: archived_as_def)
  from a show "\<exists>m'. snd (getDesignMetadata env f (fst (archiveOldDesigns env daysOld h))) = Some m' \<and>
               md_status m' = Archived"
    by (simp add: archived_as_def)
qed

theorem archiveOldDesigns_archives_old_unapproved_witness:
  "(\<forall>g. \<not> copy_fails (quiet_env 10000000000) g \<and> \<not> delete_fails (quiet_env 10000000000) g) \<and>
   \<not> mkdir_fails (quiet_env 10000000000) \<and> \<not> write_fails (quiet_env 10000000000) \<and>
   distinct (map fst (designs (snd (loadMetadata (quiet_env 10000000000) aging_host)))) \<and>
   cutoff_date (quiet_env 10000000000) 30 = Date 7408000000 \<and>
   snd (archiveOldDesigns (quiet_env 10000000000) 30 aging_host) = 1 \<and>
   map_of (design_iterations (fst (archiveOldDesigns (quiet_env 10000000000) 30 aging_host)))
     ''a.html'' = None \<and>
   in_archive (fst (archiveOldDesigns (quiet_env 10000000000) 30 aging_host)) ''a.html'' =
     Some \<lparr> body = ''<p>a</p>'', mtimeMs = 1 \<rparr> \<and>
   (\<exists>m'. snd (getDesignMetadata (quiet_env 10000000000) ''a.html''
              (fst (archiveOldDesigns (quiet_env 10000000000) 30 aging_host))) = Some m' \<and>
         md_status m' = Archived) \<and>
   map_of (design_iterations (fst (archiveOldDesigns (quiet_env 10000000000) 30 aging_host)))
     ''b.html'' = Some \<lparr> body = ''<p>b</p>'', mtimeMs = 2 \<rparr> \<and>
   in_archive (fst (archiveOldDesigns (quiet_env 10000000000) 30 aging_host)) ''b.html'' = None \<and>
   map_of (design_iterations (fst (archiveOldDesigns (quiet_env 10000000000) 30 aging_host)))
     ''c.html'' = Some \<lparr> body = ''<p>c</p>'', mtimeMs = 3 \<rparr> \<and>
   in_archive (fst (archiveOldDesigns (quiet_env 10000000000) 30 aging_host)) ''c.html'' = None"
proof -
  let ?E = "quiet_env 10000000000"
  let ?H = "fst (archiveOldDesigns ?E 30 aging_host)"
  let ?mA = "\<lparr> fileName = ''a.html'', md_status = Draft, createdAt = Date 0,
               updatedAt = Date 0, md_parentDesign = None, tags = Some [],
               md_notes = Some [], exportedTo = None, md_version = None \<rparr>"
  let ?eA = "\<lparr> body = ''<p>a</p>'', mtimeMs = 1 \<rparr>"
  have cut: "cutoff_date ?E 30 = Date 7408000000" by (simp add: quiet_env_def)
  have q: "(\<forall>g. \<not> copy_fails ?E g \<and> \<not> delete_fails ?E g) \<and> \<not> mkdir_fails ?E \<and>
           \<not> write_fails ?E \<and> distinct (map fst (designs (snd (loadMetadata ?E aging_host))))"
    by (simp add: quiet_env_def loadMetadata_def aging_host_def)
  have a: "(''a.html'', ?mA) \<in> set (designs (snd (loadMetadata ?E aging_host))) \<and>
       md_status ?mA \<noteq> Approved \<and> md_status ?mA \<noteq> Archived \<and>
       date_less (createdAt ?mA) (cutoff_date ?E 30) \<and>
       map_of (design_iterations aging_host) ''a.html'' = Some ?eA"
    by (simp add: cut) (simp add: loadMetadata_def aging_host_def)
  have b: "\<forall>m. (''b.html'', m) \<in> set (designs (snd (loadMetadata ?E aging_host))) \<longrightarrow>
         md_status m = Approved \<or> md_status m = Archived \<or>
         \<not> date_less (createdAt m) (cutoff_date ?E 30)"
    by (simp add: cut) (auto simp: loadMetadata_def aging_host_def)
  have c: "\<forall>m. (''c.html'', m) \<in> set (designs (snd (loadMetadata ?E aging_host))) \<longrightarrow>
         md_status m = Approved \<or> md_status m = Archived \<or>
         \<not> date_less (createdAt m) (cutoff_date ?E 30)"
    by (simp add: cut) (auto simp: loadMetadata_def aging_host_def)
  note T = archiveOldDesigns_archives_old_unapproved
  from T [of ?E 30 aging_host "''a.html''" ?mA ?eA] q a
  have A: "map_of (design_iterations ?H) ''a.html'' = None \<and>
           in_archive ?H ''a.html'' = Some ?eA \<and>
           (\<exists>m'. snd (getDesignMetadata ?E ''a.html'' ?H) = Some m' \<and> md_status m' = Archived)"
    by blast
  from T [of ?E 30 aging_host "''a.html''" ?mA ?eA] q
  have "snd (archiveOldDesigns ?E 30 aging_host) =
        length (filter (\<lambda>gm. md_status (snd gm) \<noteq> Approved \<and> md_status (snd gm) \<noteq> Archived \<and>
                              date_less (createdAt (snd gm)) (cutoff_date ?E 30) \<and>
                              map_of (design_iterations aging_host) (fst gm) \<noteq> None)
                  (designs (snd (loadMetadata ?E aging_host))))"
    by blast
  then have cnt: "snd (archiveOldDesigns ?E 30 aging_host) = 1"
    by (simp add: cut) (simp add: loadMetadata_def aging_host_def)
  from T [of ?E 30 aging_host "''b.html''" ?mA ?eA] b
  have B: "map_of (design_iterations ?H) ''b.html'' = map_of (design_iterations aging_host) ''b.html''
           \<and> in_archive ?H ''b.html'' = in_archive aging_host ''b.html''"
    by blast
  from T [of ?E 30 aging_host "''c.html''" ?mA ?eA] c
  have C: "map_of (design_iterations ?H) ''c.html'' = map_of (design_iterations aging_host) ''c.html''
           \<and> in_archive ?H ''c.html'' = in_archive aging_host ''c.html''"
    by blast
  have B0: "map_of (design_iterations aging_host) ''b.html'' = Some \<lparr> body = ''<p>b</p>'', mtimeMs = 2 \<rparr>"
    "in_archive aging_host ''b.html'' = None"
    "map_of (design_iterations aging_host) ''c.html'' = Some \<lparr> body = ''<p>c</p>'', mtimeMs = 3 \<rparr>"
    "in_archive aging_host ''c.html'' = None"
    by (simp_all add: aging_host_def in_archive_def)
  from q cut cnt A B C B0 show ?thesis by simp
qed

section \<open>Properties of loadMetadata on parsed values\<close>

lemma then_do_Normal:
  "then_do c f = Normal y \<Longrightarrow> \<exists>x. c = Normal x \<and> f x = Normal y"
  by (cases c) (simp_all add: then_do_def)

lemma convert_entries_keys:
  "convert_entries strict kvs = Normal kvs' \<Longrightarrow> map fst kvs' = map fst kvs"
proof (induction kvs arbitrary: kvs')
  case Nil
  then show ?case by simp
next
  case (Cons kv rest)
  obtain k v where kv: "kv = (k, v)" by (cases kv)
  from Cons.prems obtain v1 where
    "then_do (convert_entries strict rest) (\<lambda>rest1. Normal ((k, v1) # rest1)) = Normal kvs'"
    by (auto simp: kv dest: then_do_Normal)
  then obtain rest1 where r: "convert_entries strict rest = Normal rest1"
    and k: "kvs' = (k, v1) # rest1"
    by (auto dest: then_do_Normal)
  from Cons.IH [OF r] k show ?case by (simp add: kv)
qed

lemma set_prop_get_other:
  "set_prop strict d k x = Normal d1 \<Longrightarrow> k' \<noteq> k \<Longrightarrow> get_prop d1 k' = get_prop d k'"
  by (cases d) (auto simp: own_def update_conv' split: if_splits)

lemma convert_field_get_other:
  "convert_field strict k d = Normal d1 \<Longrightarrow> k' \<noteq> k \<Longrightarrow> get_prop d1 k' = get_prop d k'"
  unfolding convert_field_def
  by (auto dest!: then_do_Normal dest: set_prop_get_other)

lemma convert_dates_keys:
  assumes "convert_dates strict d = Normal d'" and "get_prop d ''designs'' = Normal (JObj recs)"
  shows "\<exists>recs'. get_prop d' ''designs'' = Normal (JObj recs') \<and> map fst recs' = map fst recs"
proof -
  from assms obtain ds1 data1 where
    c: "convert_designs strict (JObj recs) = Normal ds1"
    and s: "set_prop strict d ''designs'' ds1 = Normal data1"
    and l: "convert_field strict ''lastUpdated'' data1 = Normal d'"
    unfolding convert_dates_def by (auto dest!: then_do_Normal)
  from c obtain recs' where r: "convert_entries strict recs = Normal recs'" and ds1: "ds1 = JObj recs'"
    by (auto dest!: then_do_Normal)
  from assms(2) obtain kvs where "d = JObj kvs \<or> (\<exists>vs. d = JArr vs kvs)"
    by (cases d) auto
  with s have "get_prop data1 ''designs'' = Normal ds1"
    by (auto simp: own_def update_conv')
  with convert_field_get_other [OF l, of "''designs''"]
  have "get_prop d' ''designs'' = Normal (JObj recs')" by (simp add: ds1)
  with convert_entries_keys [OF r] show ?thesis by blast
qed

text \<open>
  C5, as the code has it: \<open>loadMetadata\<close> has no path that throws (every result is a
  cache and a table). With no cache, a file that cannot be read, that is not JSON, or
  whose value fails \<open>isValidMetadataStore\<close> gives a fresh empty table, and the cache
  stays unset; so does a value that passes the check when converting its dates throws.
  A value that passes the check with an object as \<open>designs\<close> is otherwise returned and
  cached with its dates converted and the same record names, whatever its records
  hold: it is not replaced by an empty table. With a cache, the cache is returned.
\<close>

theorem loadMetadata_json_falls_back_or_accepts:
  "(r = ReadFails \<or> r = NotJson \<or> (\<exists>d. r = Parsed d \<and> \<not> isValidMetadataStore d) \<longrightarrow>
      loadMetadata_json strict t None r = (None, createEmptyStore_json t)) \<and>
   (isValidMetadataStore d \<and> get_prop d ''designs'' = Normal (JObj recs) \<and>
    convert_dates strict d = TypeError \<longrightarrow>
      loadMetadata_json strict t None (Parsed d) = (None, createEmptyStore_json t)) \<and>
   (isValidMetadataStore d \<and> get_prop d ''designs'' = Normal (JObj recs) \<and>
    convert_dates strict d = Normal d' \<longrightarrow>
      loadMetadata_json strict t None (Parsed d) = (Some d', d') \<and>
      (\<exists>recs'. get_prop d' ''designs'' = Normal (JObj recs') \<and> map fst recs' = map fst recs)) \<and>
   loadMetadata_json strict t (Some c) r = (Some c, c)"
proof (intro conjI impI)
  assume "r = ReadFails \<or> r = NotJson \<or> (\<exists>d. r = Parsed d \<and> \<not> isValidMetadataStore d)"
  then show "loadMetadata_json strict t None r = (None, createEmptyStore_json t)"
    by (auto simp: loadMetadata_json_def)
next
  assume "isValidMetadataStore d \<and> get_prop d ''designs'' = Normal (JObj recs) \<and>
    convert_dates strict d = TypeError"
  then show "loadMetadata_json strict t None (Parsed d) = (None, createEmptyStore_json t)"
    by (simp add: loadMetadata_json_def)
next
  assume a: "isValidMetadataStore d \<and> get_prop d ''designs'' = Normal (JObj recs) \<and>
    convert_dates strict d = Normal d'"
  then show "loadMetadata_json strict t None (Parsed d) = (Some d', d')"
    by (simp add: loadMetadata_json_def)
  from a show "\<exists>recs'. get_prop d' ''designs'' = Normal (JObj recs') \<and> map fst recs' = map fst recs"
    by (blast intro: convert_dates_keys)
next
  show "loadMetadata_json strict t (Some c) r = (Some c, c)"
    by (simp add: loadMetadata_json_def)
qed

text \<open>The definitions that a run on a concrete value unfolds.\<close>

lemmas json_eval =
  loadMetadata_json_def isValidMetadataStore_def convert_dates_def convert_record_def
  convert_field_def new_Date_def then_do_def own_def createEmptyStore_json_def
  getDesignMetadata_json_def

theorem loadMetadata_json_falls_back_or_accepts_witness:
  "\<not> isValidMetadataStore (JArr [] []) \<and>
   loadMetadata_json True 1000 None (Parsed (JArr [] [])) = (None, createEmptyStore_json 1000) \<and>
   loadMetadata_json True 1000 None NotJson = (None, createEmptyStore_json 1000) \<and>
   isValidMetadataStore
     (JObj [(''designs'', JObj [(''a.html'', JObj [(''status'', JStr ''draft'')])]),
            (''version'', JStr ''1.0.0'')]) \<and>
   loadMetadata_json True 1000 None
     (Parsed (JObj [(''designs'', JObj [(''a.html'', JObj [(''status'', JStr ''draft'')])]),
                    (''version'', JStr ''1.0.0'')])) =
     (Some (JObj [(''designs'',
                   JObj [(''a.html'', JObj [(''status'', JStr ''draft''),
                                            (''createdAt'', JDate JUndefined),
                                            (''updatedAt'', JDate JUndefined)])]),
                  (''version'', JStr ''1.0.0''), (''lastUpdated'', JDate JUndefined)]),
      JObj [(''designs'',
             JObj [(''a.html'', JObj [(''status'', JStr ''draft''),
                                      (''createdAt'', JDate JUndefined),
                                      (''updatedAt'', JDate JUndefined)])]),
            (''version'', JStr ''1.0.0''), (''lastUpdated'', JDate JUndefined)]) \<and>
   isValidMetadataStore
     (JObj [(''designs'', JObj [(''a.html'', JNull)]), (''version'', JStr ''1.0.0'')]) \<and>
   loadMetadata_json True 1000 None
     (Parsed (JObj [(''designs'', JObj [(''a.html'', JNull)]), (''version'', JStr ''1.0.0'')])) =
     (None, createEmptyStore_json 1000)"
proof -
  let ?ok = "JObj [(''designs'', JObj [(''a.html'', JObj [(''status'', JStr ''draft'')])]),
                   (''version'', JStr ''1.0.0'')]"
  let ?ok' = "JObj [(''designs'',
                   JObj [(''a.html'', JObj [(''status'', JStr ''draft''),
                                            (''createdAt'', JDate JUndefined),
                                            (''updatedAt'', JDate JUndefined)])]),
                  (''version'', JStr ''1.0.0''), (''lastUpdated'', JDate JUndefined)]"
  let ?bad = "JObj [(''designs'', JObj [(''a.html'', JNull)]), (''version'', JStr ''1.0.0'')]"
  note T = loadMetadata_json_falls_back_or_accepts
  have i: "\<not> isValidMetadataStore (JArr [] [])" by (simp add: json_eval)
  have v: "isValidMetadataStore ?ok" "isValidMetadataStore ?bad" by (simp_all add: json_eval)
  have c: "convert_dates True ?ok = Normal ?ok'" by (simp add: json_eval)
  have e: "convert_dates True ?bad = TypeError" by (simp add: json_eval)
  have g: "get_prop ?ok ''designs'' = Normal (JObj [(''a.html'', JObj [(''status'', JStr ''draft'')])])"
    "get_prop ?bad ''designs'' = Normal (JObj [(''a.html'', JNull)])"
    by (simp_all add: own_def)
  from T [of "Parsed (JArr [] [])" True 1000] i
  have 1: "loadMetadata_json True 1000 None (Parsed (JArr [] [])) = (None, createEmptyStore_json 1000)"
    by blast
  from T [of NotJson True 1000]
  have 2: "loadMetadata_json True 1000 None NotJson = (None, createEmptyStore_json 1000)"
    by blast
  from T [of r True 1000 ?ok "[(''a.html'', JObj [(''status'', JStr ''draft'')])]" ?ok'] v(1) c g(1)
  have 3: "loadMetadata_json True 1000 None (Parsed ?ok) = (Some ?ok', ?ok')" for r
    by blast
  from T [of r True 1000 ?bad "[(''a.html'', JNull)]"] v(2) e g(2)
  have 4: "loadMetadata_json True 1000 None (Parsed ?bad) = (None, createEmptyStore_json 1000)" for r
    by blast
  from i v 1 2 3 4 show ?thesis by simp
qed

text \<open>
  C5 as the claim states it fails: the file holds one record without any field, which
  is no well-formed metadata store, and \<open>loadMetadata\<close> returns and caches a table
  with that record, not the empty table.
\<close>

theorem malformed_records_are_accepted:
  "loadMetadata_json True 1000 None
     (Parsed (JObj [(''designs'', JObj [(''a.html'', JObj [])]), (''version'', JStr ''1.0.0'')])) =
     (Some (JObj [(''designs'',
                   JObj [(''a.html'', JObj [(''createdAt'', JDate JUndefined),
                                            (''updatedAt'', JDate JUndefined)])]),
                  (''version'', JStr ''1.0.0''), (''lastUpdated'', JDate JUndefined)]),
      JObj [(''designs'',
             JObj [(''a.html'', JObj [(''createdAt'', JDate JUndefined),
                                      (''updatedAt'', JDate JUndefined)])]),
            (''version'', JStr ''1.0.0''), (''lastUpdated'', JDate JUndefined)]) \<and>
   snd (loadMetadata_json True 1000 None
     (Parsed (JObj [(''designs'', JObj [(''a.html'', JObj [])]), (''version'', JStr ''1.0.0'')])))
     \<noteq> createEmptyStore_json 1000"
  by (simp add: json_eval)

text \<open>
  The check \<open>typeof data.designs === 'object'\<close> also lets \<open>designs: null\<close> through:
  the store is returned and cached, and the next \<open>getDesignMetadata\<close> throws.
\<close>

lemma null_designs_pass_the_check:
  "loadMetadata_json strict 1000 None
     (Parsed (JObj [(''designs'', JNull), (''version'', JStr ''1.0.0'')])) =
     (Some (JObj [(''designs'', JNull), (''version'', JStr ''1.0.0''),
                  (''lastUpdated'', JDate JUndefined)]),
      JObj [(''designs'', JNull), (''version'', JStr ''1.0.0''),
            (''lastUpdated'', JDate JUndefined)]) \<and>
   getDesignMetadata_json
     (JObj [(''designs'', JNull), (''version'', JStr ''1.0.0''),
            (''lastUpdated'', JDate JUndefined)]) ''a.html'' = TypeError"
  by (simp add: json_eval)

end
